theory Spec2Isabelle
  imports Main "HOL-Library.Sublist" "HOL-Library.AList"
begin

section \<open>Python text and values\<close>

text \<open>
  Python text is modelled as \<^typ>\<open>string\<close>: a list of characters with code points 0 to 255.
  The values the hand-written TOML reader produces are either text or a list of text.
\<close>

datatype pyval = PStr string | PList "string list"

datatype error = ValueError | TypeError | KeyError | IndexError

definition NL :: char where
  "NL = CHR 0x0A"

definition BS :: char where
  "BS = CHR 0x5C"

text \<open>\<^verbatim>\<open>str.isspace\<close> on one character, for code points below 256.\<close>

definition py_isspace :: "char \<Rightarrow> bool" where
  "py_isspace c = (c \<in> set [CHR 0x09, CHR 0x0A, CHR 0x0B, CHR 0x0C, CHR 0x0D,
                             CHR 0x1C, CHR 0x1D, CHR 0x1E, CHR 0x1F, CHR 0x20,
                             CHR 0x85, CHR 0xA0])"

text \<open>\<^verbatim>\<open>s.strip()\<close> and \<^verbatim>\<open>s.strip(chars)\<close>.\<close>

definition strip :: "string \<Rightarrow> string" where
  "strip s = rev (dropWhile py_isspace (rev (dropWhile py_isspace s)))"

definition strip_chars :: "string \<Rightarrow> string \<Rightarrow> string" where
  "strip_chars cs s =
     rev (dropWhile (\<lambda>c. c \<in> set cs) (rev (dropWhile (\<lambda>c. c \<in> set cs) s)))"

text \<open>\<^verbatim>\<open>s.split(c)\<close> for a one-character separator: never an empty list.\<close>

fun split_on :: "char \<Rightarrow> string \<Rightarrow> string list" where
  "split_on c [] = [[]]"
| "split_on c (x # xs) =
     (if x = c then [] # split_on c xs
      else (case split_on c xs of [] \<Rightarrow> [[x]] | w # ws \<Rightarrow> (x # w) # ws))"

text \<open>\<^verbatim>\<open>s.split(c, 1)\<close> on a text that contains \<open>c\<close>: the parts before and after the first \<open>c\<close>.\<close>

definition split1 :: "char \<Rightarrow> string \<Rightarrow> string \<times> string" where
  "split1 c s = (takeWhile (\<lambda>x. x \<noteq> c) s, tl (dropWhile (\<lambda>x. x \<noteq> c) s))"

text \<open>\<^verbatim>\<open>sub in s\<close> for text: \<open>sub\<close> occurs in \<open>s\<close> as a contiguous piece.\<close>

fun py_in :: "string \<Rightarrow> string \<Rightarrow> bool" where
  "py_in sub [] = (sub = [])"
| "py_in sub (c # cs) = (prefix sub (c # cs) \<or> py_in sub cs)"

text \<open>\<^verbatim>\<open>sep.join(xs)\<close>.\<close>

fun py_join :: "string \<Rightarrow> string list \<Rightarrow> string" where
  "py_join sep [] = []"
| "py_join sep [x] = x"
| "py_join sep (x # y # ys) = x @ sep @ py_join sep (y # ys)"

section \<open>Regular expressions\<close>

text \<open>
  The patterns of the two scripts use literals, character classes, sequencing, \<^verbatim>\<open>?\<close>,
  \<^verbatim>\<open>*\<close>, \<^verbatim>\<open>+\<close>, one capturing group, \<^verbatim>\<open>^\<close> and \<^verbatim>\<open>$\<close>. The matcher is a backtracking
  one: it returns every way to match at the current position, the preferred one first, as
  Python's \<^verbatim>\<open>re\<close> explores them (greedy repetition, optional part tried first).
  A matcher state is the number of characters before the current position, the rest of the
  subject and the text captured by the group, if any.
\<close>

datatype rx =
    Lit string
  | Cls "char list"
  | NCls "char list"
  | Seq rx rx
  | Opt rx
  | Star rx
  | Grp rx
  | Bos
  | Eos

definition Plus :: "rx \<Rightarrow> rx" where
  "Plus r = Seq r (Star r)"

type_synonym mstate = "nat \<times> string \<times> string option"

fun rmatch :: "rx \<Rightarrow> mstate \<Rightarrow> mstate list" where
  "rmatch (Lit w) (n, s, g) =
     (if prefix w s then [(n + length w, drop (length w) s, g)] else [])"
| "rmatch (Cls cs) (n, s, g) =
     (case s of [] \<Rightarrow> [] | c # t \<Rightarrow> if c \<in> set cs then [(Suc n, t, g)] else [])"
| "rmatch (NCls cs) (n, s, g) =
     (case s of [] \<Rightarrow> [] | c # t \<Rightarrow> if c \<notin> set cs then [(Suc n, t, g)] else [])"
| "rmatch (Seq r1 r2) st = concat (map (rmatch r2) (rmatch r1 st))"
| "rmatch (Opt r) st = rmatch r st @ [st]"
| "rmatch (Star r) (n, s, g) =
     concat (map (\<lambda>st'. if length (fst (snd st')) < length s then rmatch (Star r) st' else [])
                 (rmatch r (n, s, g))) @ [(n, s, g)]"
| "rmatch (Grp r) (n, s, g) =
     map (\<lambda>(n', s', g'). (n', s', Some (take (n' - n) s))) (rmatch r (n, s, g))"
| "rmatch Bos (n, s, g) = (if n = 0 then [(n, s, g)] else [])"
| "rmatch Eos (n, s, g) = (if s = [] \<or> s = [NL] then [(n, s, g)] else [])"

text \<open>
  \<^verbatim>\<open>re.match(p, s)\<close>: the preferred match at position 0, or \<open>None\<close>. The result is the
  captured group of the match (\<open>None\<close> inside \<open>Some\<close> when the group did not take part).
\<close>

definition re_match :: "rx \<Rightarrow> string \<Rightarrow> string option option" where
  "re_match p s = (case rmatch p (0, s, None) of [] \<Rightarrow> None | (n, t, g) # ms \<Rightarrow> Some g)"

text \<open>The character classes of the patterns.\<close>

definition digits :: "char list" where
  "digits = ''0123456789''"

definition lowers :: "char list" where
  "lowers = ''abcdefghijklmnopqrstuvwxyz''"

definition uppers :: "char list" where
  "uppers = ''ABCDEFGHIJKLMNOPQRSTUVWXYZ''"

section \<open>Input sanitizer (packaging/generate_packages.py)\<close>

definition default_allowed_chars :: string where
  "default_allowed_chars =
     ''abcdefghijklmnopqrstuvwxyzABCDEFGHIJKLMNOPQRSTUVWXYZ0123456789.-_/:''"

text \<open>
  \<^verbatim>\<open>sanitize_input(value, max_length=256, allowed_chars=None)\<close>. The arguments left out
  by a caller are passed explicitly here: \<open>256\<close> and \<open>None\<close>.
\<close>

definition sanitize_input :: "pyval \<Rightarrow> int \<Rightarrow> string option \<Rightarrow> error + string" where
  "sanitize_input v max_length allowed_chars =
     (case v of
        PList xs \<Rightarrow> Inl ValueError
      | PStr s \<Rightarrow>
          if int (length s) > max_length then Inl ValueError
          else
            let allowed = (case allowed_chars of None \<Rightarrow> default_allowed_chars
                                               | Some cs \<Rightarrow> cs)
            in if list_ex (\<lambda>c. c \<notin> set allowed) s then Inl ValueError else Inr s)"

text \<open>The pattern \<^verbatim>\<open>^\d+\.\d+\.\d+(-[a-zA-Z0-9\-\.]+)?$\<close>.\<close>

definition version_rx :: rx where
  "version_rx =
     Seq Bos (Seq (Plus (Cls digits)) (Seq (Lit ''.'') (Seq (Plus (Cls digits))
       (Seq (Lit ''.'') (Seq (Plus (Cls digits))
         (Seq (Opt (Grp (Seq (Lit ''-'') (Plus (Cls (lowers @ uppers @ digits @ ''-.''))))))
              Eos))))))"

text \<open>
  \<^verbatim>\<open>validate_version\<close>: \<^verbatim>\<open>re.match\<close> raises \<^verbatim>\<open>TypeError\<close> on a value that is not text.
\<close>

definition validate_version :: "pyval \<Rightarrow> error + string" where
  "validate_version v =
     (case v of
        PList xs \<Rightarrow> Inl TypeError
      | PStr s \<Rightarrow> if re_match version_rx s = None then Inl ValueError else Inr s)"

text \<open>The pattern \<^verbatim>\<open>^https?://[a-zA-Z0-9\-\.]+(/.*)?$\<close>; \<^verbatim>\<open>.\<close> matches all but a newline.\<close>

definition url_rx :: rx where
  "url_rx =
     Seq Bos (Seq (Lit ''http'') (Seq (Opt (Lit ''s'')) (Seq (Lit ''://'')
       (Seq (Plus (Cls (lowers @ uppers @ digits @ ''-.'')))
         (Seq (Opt (Grp (Seq (Lit ''/'') (Star (NCls [NL]))))) Eos)))))"

definition validate_url :: "pyval \<Rightarrow> error + string" where
  "validate_url v =
     (case v of
        PList xs \<Rightarrow> Inl TypeError
      | PStr s \<Rightarrow> if re_match url_rx s = None then Inl ValueError else Inr s)"

text \<open>
  The version grammar in the words of the specification: \<^verbatim>\<open>MAJOR.MINOR.PATCH\<close> with an
  optional \<^verbatim>\<open>-prerelease\<close> suffix composed of alphanumerics, hyphens and dots.
\<close>

definition spec_number :: "string \<Rightarrow> bool" where
  "spec_number s = (s \<noteq> [] \<and> list_all (\<lambda>c. c \<in> set digits) s)"

definition spec_semver :: "string \<Rightarrow> bool" where
  "spec_semver s =
     (let core = takeWhile (\<lambda>c. c \<noteq> CHR ''-'') s;
          pre = dropWhile (\<lambda>c. c \<noteq> CHR ''-'') s
      in (case split_on (CHR ''.'') core of
            [a, b, c] \<Rightarrow> spec_number a \<and> spec_number b \<and> spec_number c
          | _ \<Rightarrow> False)
         \<and> (pre = [] \<or>
              (tl pre \<noteq> [] \<and>
               list_all (\<lambda>c. c \<in> set (lowers @ uppers @ digits @ ''-.'')) (tl pre))))"

section \<open>Metadata loader (packaging/generate_packages.py)\<close>

definition quote_chars :: string where
  "quote_chars = [CHR 0x22, CHR 0x27]"

text \<open>
  One iteration of the loop of \<^verbatim>\<open>parse_toml_simple\<close>: the state is \<^verbatim>\<open>in_package\<close> and
  \<^verbatim>\<open>package_data\<close>.
\<close>

definition toml_step :: "string \<Rightarrow> bool \<times> (string \<rightharpoonup> pyval) \<Rightarrow> bool \<times> (string \<rightharpoonup> pyval)" where
  "toml_step raw st =
     (let in_package = fst st; package_data = snd st; line = strip raw in
      if line = ''[package]'' then (True, package_data)
      else if prefix ''['' line \<and> line \<noteq> ''[package]'' then (False, package_data)
      else if in_package \<and> CHR ''='' \<in> set line then
        let key = strip (fst (split1 (CHR ''='') line));
            v = strip_chars quote_chars (strip (snd (split1 (CHR ''='') line)))
        in if prefix ''['' v \<and> suffix '']'' v then
             let inner = butlast (tl v) in
             if inner \<noteq> [] then
               (in_package, package_data(key \<mapsto>
                  PList (map (\<lambda>item. strip_chars quote_chars (strip item))
                             (split_on (CHR '','') inner))))
             else (in_package, package_data(key \<mapsto> PList []))
           else (in_package, package_data(key \<mapsto> PStr v))
      else (in_package, package_data))"

definition parse_toml_simple :: "string \<Rightarrow> (string \<rightharpoonup> pyval)" where
  "parse_toml_simple content =
     snd (foldl (\<lambda>st line. toml_step line st) (False, Map.empty) (split_on NL content))"

text \<open>\<^verbatim>\<open>d.get(k, default)\<close>.\<close>

definition dict_get :: "(string \<rightharpoonup> 'a) \<Rightarrow> string \<Rightarrow> 'a \<Rightarrow> 'a" where
  "dict_get d k dflt = (case d k of None \<Rightarrow> dflt | Some v \<Rightarrow> v)"

text \<open>
  \<^verbatim>\<open>load_cargo_metadata\<close>, from the text read from the file. The entry \<^verbatim>\<open>authors\<close> is a
  list of one text.
\<close>

definition load_cargo_metadata :: "string \<Rightarrow> (string \<rightharpoonup> pyval)" where
  "load_cargo_metadata content =
     (let package = parse_toml_simple content;
          authors = dict_get package ''authors'' (PList [''Unknown'']);
          author = (case authors of
                      PList xs \<Rightarrow> (if xs \<noteq> [] then hd xs else ''Unknown'')
                    | PStr s \<Rightarrow> s)
      in [''name'' \<mapsto> dict_get package ''name'' (PStr ''lazycelery''),
          ''version'' \<mapsto> dict_get package ''version'' (PStr ''0.4.0''),
          ''description'' \<mapsto>
             dict_get package ''description'' (PStr ''Terminal UI for monitoring Celery''),
          ''authors'' \<mapsto> PList [author],
          ''license'' \<mapsto> dict_get package ''license'' (PStr ''MIT''),
          ''repository'' \<mapsto>
             dict_get package ''repository'' (PStr ''https://github.com/Fguedes90/lazycelery''),
          ''homepage'' \<mapsto>
             dict_get package ''homepage'' (PStr ''https://github.com/Fguedes90/lazycelery''),
          ''keywords'' \<mapsto>
             dict_get package ''keywords''
               (PList [''celery'', ''tui'', ''terminal'', ''monitoring'', ''redis'']),
          ''categories'' \<mapsto>
             dict_get package ''categories'' (PList [''command-line-utilities''])])"

section \<open>Rendering values into text\<close>

definition hex2 :: "char \<Rightarrow> string" where
  "hex2 c = [''0123456789abcdef'' ! ((of_char c :: nat) div 16),
             ''0123456789abcdef'' ! ((of_char c :: nat) mod 16)]"

text \<open>\<^verbatim>\<open>str.isprintable\<close> on one character, for code points below 256.\<close>

definition py_isprintable :: "char \<Rightarrow> bool" where
  "py_isprintable c =
     (let n = (of_char c :: nat)
      in (32 \<le> n \<and> n \<le> 126) \<or> (161 \<le> n \<and> n \<noteq> 173))"

text \<open>\<^verbatim>\<open>repr(s)\<close> of a text, and \<^verbatim>\<open>str(v)\<close> as an f-string renders a value.\<close>

definition repr_char :: "char \<Rightarrow> char \<Rightarrow> string" where
  "repr_char q c =
     (if c = q \<or> c = BS then [BS, c]
      else if c = CHR 0x09 then [BS, CHR ''t'']
      else if c = CHR 0x0A then [BS, CHR ''n'']
      else if c = CHR 0x0D then [BS, CHR ''r'']
      else if py_isprintable c then [c]
      else [BS, CHR ''x''] @ hex2 c)"

definition py_repr :: "string \<Rightarrow> string" where
  "py_repr s =
     (let q = (if CHR 0x27 \<in> set s \<and> CHR 0x22 \<notin> set s then CHR 0x22 else CHR 0x27)
      in [q] @ concat (map (repr_char q) s) @ [q])"

definition py_str :: "pyval \<Rightarrow> string" where
  "py_str v = (case v of
                 PStr s \<Rightarrow> s
               | PList xs \<Rightarrow> ''['' @ py_join '', '' (map py_repr xs) @ '']'')"

text \<open>\<^verbatim>\<open>s.capitalize()\<close>, for ASCII text (the generators apply it to a validated name).\<close>

definition ascii_upper :: "char \<Rightarrow> char" where
  "ascii_upper c = (if c \<in> set lowers then char_of ((of_char c :: nat) - 32) else c)"

definition ascii_lower :: "char \<Rightarrow> char" where
  "ascii_lower c = (if c \<in> set uppers then char_of ((of_char c :: nat) + 32) else c)"

definition capitalize :: "string \<Rightarrow> string" where
  "capitalize s = (case s of [] \<Rightarrow> [] | c # cs \<Rightarrow> ascii_upper c # map ascii_lower cs)"

text \<open>\<^verbatim>\<open>json.dumps(obj, indent=4)\<close> for text, lists and dictionaries.\<close>

datatype json = JStr string | JArr "json list" | JObj "(string \<times> json) list"

definition json_char :: "char \<Rightarrow> string" where
  "json_char c =
     (if c = CHR 0x22 then [BS, CHR 0x22]
      else if c = BS then [BS, BS]
      else if c = CHR 0x0A then [BS, CHR ''n'']
      else if c = CHR 0x0D then [BS, CHR ''r'']
      else if c = CHR 0x09 then [BS, CHR ''t'']
      else if c = CHR 0x08 then [BS, CHR ''b'']
      else if c = CHR 0x0C then [BS, CHR ''f'']
      else if 32 \<le> (of_char c :: nat) \<and> (of_char c :: nat) \<le> 126 then [c]
      else [BS, CHR ''u'', CHR ''0'', CHR ''0''] @ hex2 c)"

definition json_string :: "string \<Rightarrow> string" where
  "json_string s = [CHR 0x22] @ concat (map json_char s) @ [CHR 0x22]"

definition newline_indent :: "nat \<Rightarrow> string" where
  "newline_indent level = NL # replicate (4 * level) (CHR '' '')"

fun json_dumps_at :: "nat \<Rightarrow> json \<Rightarrow> string" where
  "json_dumps_at level (JStr s) = json_string s"
| "json_dumps_at level (JArr xs) =
     (if xs = [] then ''[]''
      else ''['' @ newline_indent (Suc level)
           @ py_join ('','' @ newline_indent (Suc level)) (map (json_dumps_at (Suc level)) xs)
           @ newline_indent level @ '']'')"
| "json_dumps_at level (JObj kvs) =
     (if kvs = [] then ''{}''
      else ''{'' @ newline_indent (Suc level)
           @ py_join ('','' @ newline_indent (Suc level))
               (map (\<lambda>kv. json_string (fst kv) @ '': '' @ json_dumps_at (Suc level) (snd kv)) kvs)
           @ newline_indent level @ ''}'')"

definition json_dumps :: "json \<Rightarrow> string" where
  "json_dumps j = json_dumps_at 0 j"

definition to_json :: "pyval \<Rightarrow> json" where
  "to_json v = (case v of PStr s \<Rightarrow> JStr s | PList xs \<Rightarrow> JArr (map JStr xs))"

section \<open>Package manifest generators (packaging/generate_packages.py)\<close>

text \<open>Exceptions are values: the first error ends the computation.\<close>

definition bind_e :: "error + 'a \<Rightarrow> ('a \<Rightarrow> error + 'b) \<Rightarrow> error + 'b" where
  "bind_e r f = (case r of Inl e \<Rightarrow> Inl e | Inr x \<Rightarrow> f x)"

text \<open>\<^verbatim>\<open>metadata[key]\<close> and \<^verbatim>\<open>value[0]\<close> (the first element of a list, the first character of a text).\<close>

definition item :: "(string \<rightharpoonup> pyval) \<Rightarrow> string \<Rightarrow> error + pyval" where
  "item d k = (case d k of None \<Rightarrow> Inl KeyError | Some v \<Rightarrow> Inr v)"

definition subscript0 :: "pyval \<Rightarrow> error + string" where
  "subscript0 v = (case v of
                     PList [] \<Rightarrow> Inl IndexError
                   | PList (x # xs) \<Rightarrow> Inr x
                   | PStr [] \<Rightarrow> Inl IndexError
                   | PStr (c # cs) \<Rightarrow> Inr [c])"

definition name_chars :: string where
  "name_chars = ''abcdefghijklmnopqrstuvwxyz0123456789-''"

definition PLACEHOLDER :: string where
  "PLACEHOLDER = ''PLACEHOLDER_SHA256''"

definition SQ :: string where
  "SQ = [CHR 0x27]"

text \<open>
  \<^verbatim>\<open>calculate_sha256_from_url\<close> reads the network: the argument \<open>net\<close> gives, for a URL, the
  hexadecimal digest of what is served there, or \<open>None\<close> when the download fails.
  The hash a generator renders is the placeholder unless hashing is requested and the
  download gives a non-empty digest.
\<close>

definition sha256_or_placeholder :: "(string \<Rightarrow> string option) \<Rightarrow> bool \<Rightarrow> string \<Rightarrow> string" where
  "sha256_or_placeholder net calculate_hashes url =
     (if calculate_hashes then
        (case net url of
           None \<Rightarrow> PLACEHOLDER
         | Some calculated_hash \<Rightarrow> if calculated_hash \<noteq> [] then calculated_hash else PLACEHOLDER)
      else PLACEHOLDER)"

text \<open>\<^verbatim>\<open>generate_pkgbuild_source\<close>: the AUR PKGBUILD for a source build.\<close>

definition generate_pkgbuild_source ::
  "(string \<Rightarrow> string option) \<Rightarrow> (string \<rightharpoonup> pyval) \<Rightarrow> bool \<Rightarrow> error + string" where
  \<open>generate_pkgbuild_source net metadata calculate_hashes =
     bind_e (item metadata ''name'') (\<lambda>v_name.
     bind_e (sanitize_input v_name 50 (Some name_chars)) (\<lambda>name.
     bind_e (item metadata ''version'') (\<lambda>v_version.
     bind_e (validate_version v_version) (\<lambda>version.
     bind_e (item metadata ''repository'') (\<lambda>v_repository.
     bind_e (validate_url v_repository) (\<lambda>repository.
     bind_e (item metadata ''homepage'') (\<lambda>v_homepage.
     bind_e (validate_url v_homepage) (\<lambda>homepage.
     let sha256_hash = sha256_or_placeholder net calculate_hashes
                          (repository @ ''/archive/v'' @ version @ ''.tar.gz'') in
     bind_e (item metadata ''authors'') (\<lambda>v_authors.
     bind_e (subscript0 v_authors) (\<lambda>author0.
     bind_e (item metadata ''description'') (\<lambda>description.
     bind_e (item metadata ''license'') (\<lambda>license.
     Inr (py_join [NL] [
        ''# Maintainer: '' @ author0,
        ''pkgname='' @ name,
        ''pkgver='' @ version,
        ''pkgrel=1'',
        ''pkgdesc="'' @ py_str description @ ''"'',
        ''arch=('' @ SQ @ ''x86_64'' @ SQ @ '')'',
        ''url="'' @ homepage @ ''"'',
        ''license=('' @ SQ @ py_str license @ SQ @ '')'',
        ''depends=('' @ SQ @ ''gcc-libs'' @ SQ @ '')'',
        ''makedepends=('' @ SQ @ ''rust'' @ SQ @ '' '' @ SQ @ ''cargo'' @ SQ @ '')'',
        ''source=("$pkgname-$pkgver.tar.gz::'' @ repository @ ''/archive/v$pkgver.tar.gz")'',
        ''sha256sums=('' @ SQ @ sha256_hash @ SQ @ '')'',
        [],
        ''build() {'',
        ''    cd "$pkgname-$pkgver"'',
        ''    export RUSTUP_TOOLCHAIN=stable'',
        ''    export CARGO_TARGET_DIR=target'',
        ''    cargo build --release --locked'',
        ''}'',
        [],
        ''check() {'',
        ''    cd "$pkgname-$pkgver"'',
        ''    export RUSTUP_TOOLCHAIN=stable'',
        ''    cargo test --release --locked'',
        ''}'',
        [],
        ''package() {'',
        ''    cd "$pkgname-$pkgver"'',
        ''    install -Dm755 target/release/$pkgname "$pkgdir/usr/bin/$pkgname"'',
        ''    install -Dm644 LICENSE "$pkgdir/usr/share/licenses/$pkgname/LICENSE"'',
        ''    install -Dm644 README.md "$pkgdir/usr/share/doc/$pkgname/README.md"'',
        ''}''])))))))))))))\<close>

text \<open>\<^verbatim>\<open>generate_pkgbuild_bin\<close>: the AUR PKGBUILD for a binary release.\<close>

definition generate_pkgbuild_bin ::
  "(string \<Rightarrow> string option) \<Rightarrow> (string \<rightharpoonup> pyval) \<Rightarrow> bool \<Rightarrow> error + string" where
  \<open>generate_pkgbuild_bin net metadata calculate_hashes =
     bind_e (item metadata ''name'') (\<lambda>v_name.
     bind_e (sanitize_input v_name 50 (Some name_chars)) (\<lambda>name.
     bind_e (item metadata ''version'') (\<lambda>v_version.
     bind_e (validate_version v_version) (\<lambda>version.
     bind_e (item metadata ''repository'') (\<lambda>v_repository.
     bind_e (validate_url v_repository) (\<lambda>repository.
     bind_e (item metadata ''homepage'') (\<lambda>v_homepage.
     bind_e (validate_url v_homepage) (\<lambda>homepage.
     let sha256_hash = sha256_or_placeholder net calculate_hashes
                          (repository @ ''/releases/download/v'' @ version @ ''/'' @ name
                             @ ''-linux-x86_64.tar.gz'') in
     bind_e (item metadata ''authors'') (\<lambda>v_authors.
     bind_e (subscript0 v_authors) (\<lambda>author0.
     bind_e (item metadata ''description'') (\<lambda>description.
     bind_e (item metadata ''license'') (\<lambda>license.
     Inr (py_join [NL] [
        ''# Maintainer: '' @ author0,
        ''pkgname='' @ name @ ''-bin'',
        ''pkgver='' @ version,
        ''pkgrel=1'',
        ''pkgdesc="'' @ py_str description @ '' (binary release)"'',
        ''arch=('' @ SQ @ ''x86_64'' @ SQ @ '')'',
        ''url="'' @ homepage @ ''"'',
        ''license=('' @ SQ @ py_str license @ SQ @ '')'',
        ''depends=('' @ SQ @ ''gcc-libs'' @ SQ @ '')'',
        ''provides=('' @ SQ @ name @ SQ @ '')'',
        ''conflicts=('' @ SQ @ name @ SQ @ '')'',
        ''source_x86_64=("'' @ repository @ ''/releases/download/v$pkgver/'' @ name @ ''-linux-x86_64.tar.gz")'',
        ''sha256sums_x86_64=('' @ SQ @ sha256_hash @ SQ @ '')'',
        [],
        ''package() {'',
        ''    install -Dm755 '' @ py_str v_name @ '' "$pkgdir/usr/bin/'' @ py_str v_name @ ''"'',
        ''    '',
        ''    # Download and install license and docs'',
        ''    curl -sL "'' @ py_str v_repository @ ''/raw/v$pkgver/LICENSE" -o LICENSE'',
        ''    curl -sL "'' @ py_str v_repository @ ''/raw/v$pkgver/README.md" -o README.md'',
        ''    '',
        ''    install -Dm644 LICENSE "$pkgdir/usr/share/licenses/$pkgname/LICENSE"'',
        ''    install -Dm644 README.md "$pkgdir/usr/share/doc/$pkgname/README.md"'',
        ''}''])))))))))))))\<close>

text \<open>\<^verbatim>\<open>generate_homebrew_formula\<close>: the Homebrew formula.\<close>

definition generate_homebrew_formula ::
  "(string \<Rightarrow> string option) \<Rightarrow> (string \<rightharpoonup> pyval) \<Rightarrow> bool \<Rightarrow> error + string" where
  \<open>generate_homebrew_formula net metadata calculate_hashes =
     bind_e (item metadata ''name'') (\<lambda>v_name.
     bind_e (sanitize_input v_name 50 (Some name_chars)) (\<lambda>name.
     bind_e (item metadata ''version'') (\<lambda>v_version.
     bind_e (validate_version v_version) (\<lambda>version.
     bind_e (item metadata ''repository'') (\<lambda>v_repository.
     bind_e (validate_url v_repository) (\<lambda>repository.
     bind_e (item metadata ''homepage'') (\<lambda>v_homepage.
     bind_e (validate_url v_homepage) (\<lambda>homepage.
     let sha256_hash = sha256_or_placeholder net calculate_hashes
                          (repository @ ''/archive/v'' @ version @ ''.tar.gz'') in
     let class_name = capitalize name in
     bind_e (item metadata ''description'') (\<lambda>description.
     bind_e (item metadata ''license'') (\<lambda>license.
     Inr (py_join [NL] [
        ''class '' @ class_name @ '' < Formula'',
        ''  desc "'' @ py_str description @ ''"'',
        ''  homepage "'' @ homepage @ ''"'',
        ''  url "'' @ repository @ ''/archive/v'' @ version @ ''.tar.gz"'',
        ''  sha256 "'' @ sha256_hash @ ''"'',
        ''  license "'' @ py_str license @ ''"'',
        [],
        ''  depends_on "rust" => :build'',
        [],
        ''  def install'',
        ''    system "cargo", "install", *std_cargo_args'',
        ''  end'',
        [],
        ''  test do'',
        ''    assert_match "'' @ py_str v_name @ ''", shell_output("#{bin}/'' @ py_str v_name @ '' --help")'',
        ''  end'',
        ''end''])))))))))))\<close>

text \<open>\<^verbatim>\<open>' '.join(value)\<close>: over the elements of a list, or over the characters of a text.\<close>

definition join_value :: "string \<Rightarrow> pyval \<Rightarrow> string" where
  "join_value sep v = (case v of
                         PList xs \<Rightarrow> py_join sep xs
                       | PStr s \<Rightarrow> py_join sep (map (\<lambda>c. [c]) s))"

text \<open>\<^verbatim>\<open>generate_chocolatey_nuspec\<close>: the Chocolatey package specification.\<close>

definition generate_chocolatey_nuspec ::
  "(string \<Rightarrow> string option) \<Rightarrow> (string \<rightharpoonup> pyval) \<Rightarrow> bool \<Rightarrow> error + string" where
  \<open>generate_chocolatey_nuspec net metadata calculate_hashes =
     bind_e (item metadata ''name'') (\<lambda>v_name.
     bind_e (sanitize_input v_name 50 (Some name_chars)) (\<lambda>name.
     bind_e (item metadata ''version'') (\<lambda>v_version.
     bind_e (validate_version v_version) (\<lambda>version.
     bind_e (item metadata ''repository'') (\<lambda>v_repository.
     bind_e (validate_url v_repository) (\<lambda>repository.
     bind_e (item metadata ''authors'') (\<lambda>v_authors.
     bind_e (subscript0 v_authors) (\<lambda>author0.
     let author = strip (hd (split_on (CHR ''<'') author0)) in
     bind_e (item metadata ''keywords'') (\<lambda>keywords.
     let tags = join_value '' '' keywords in
     bind_e (item metadata ''description'') (\<lambda>description.
     Inr (py_join [NL] [
        ''<?xml version="1.0" encoding="utf-8"?>'',
        ''<package xmlns="http://schemas.microsoft.com/packaging/2015/06/nuspec.xsd">'',
        ''  <metadata>'',
        ''    <id>'' @ name @ ''</id>'',
        ''    <version>'' @ version @ ''</version>'',
        ''    <packageSourceUrl>'' @ repository @ ''/tree/main/packaging/chocolatey</packageSourceUrl>'',
        ''    <owners>'' @ author @ ''</owners>'',
        ''    <title>'' @ capitalize name @ ''</title>'',
        ''    <authors>'' @ author @ ''</authors>'',
        ''    <projectUrl>'' @ repository @ ''</projectUrl>'',
        ''    <iconUrl>'' @ repository @ ''/raw/main/screenshots/workers-view.png</iconUrl>'',
        ''    <copyright>2024 '' @ author @ ''</copyright>'',
        ''    <licenseUrl>'' @ repository @ ''/blob/main/LICENSE</licenseUrl>'',
        ''    <requireLicenseAcceptance>false</requireLicenseAcceptance>'',
        ''    <projectSourceUrl>'' @ repository @ ''</projectSourceUrl>'',
        ''    <docsUrl>'' @ repository @ ''/blob/main/README.md</docsUrl>'',
        ''    <bugTrackerUrl>'' @ repository @ ''/issues</bugTrackerUrl>'',
        ''    <tags>'' @ tags @ ''</tags>'',
        ''    <summary>'' @ py_str description @ ''</summary>'',
        ''    <description>'',
        py_str description,
        [],
        ''## Features'',
        ''- Real-time monitoring of Celery workers and tasks'',
        ''- Task management (retry, revoke, purge queues)'',
        ''- Redis broker support with real Celery protocol integration'',
        ''- Intuitive terminal interface with vim-style navigation'',
        ''- Cross-platform support (Linux, macOS, Windows)'',
        [],
        ''## Usage'',
        ''Run `'' @ name @ ''` in your terminal to start monitoring your Celery infrastructure.'',
        ''    </description>'',
        ''    <releaseNotes>'' @ repository @ ''/releases</releaseNotes>'',
        ''  </metadata>'',
        ''  <files>'',
        ''    <file src="tools'' @ [BS] @ ''**" target="tools" />'',
        ''  </files>'',
        ''</package>''])))))))))))\<close>

text \<open>\<^verbatim>\<open>generate_scoop_manifest\<close>: the Scoop manifest, a JSON text.\<close>

definition generate_scoop_manifest ::
  "(string \<Rightarrow> string option) \<Rightarrow> (string \<rightharpoonup> pyval) \<Rightarrow> bool \<Rightarrow> error + string" where
  \<open>generate_scoop_manifest net metadata calculate_hashes =
     bind_e (item metadata ''name'') (\<lambda>v_name.
     bind_e (sanitize_input v_name 50 (Some name_chars)) (\<lambda>name.
     bind_e (item metadata ''version'') (\<lambda>v_version.
     bind_e (validate_version v_version) (\<lambda>version.
     bind_e (item metadata ''repository'') (\<lambda>v_repository.
     bind_e (validate_url v_repository) (\<lambda>repository.
     bind_e (item metadata ''homepage'') (\<lambda>v_homepage.
     bind_e (validate_url v_homepage) (\<lambda>homepage.
     let sha256_hash = sha256_or_placeholder net calculate_hashes
                          (repository @ ''/releases/download/v'' @ version @ ''/'' @ name
                             @ ''-windows-x86_64.zip'') in
     bind_e (item metadata ''description'') (\<lambda>description.
     bind_e (item metadata ''license'') (\<lambda>license.
     Inr (json_dumps (JObj [
        (''version'', JStr version),
        (''description'', to_json description),
        (''homepage'', JStr homepage),
        (''license'', to_json license),
        (''architecture'', JObj [
           (''64bit'', JObj [
              (''url'', JStr (repository @ ''/releases/download/v'' @ version @ ''/'' @ name
                                @ ''-windows-x86_64.zip'')),
              (''hash'', JStr sha256_hash),
              (''extract_dir'', JStr [])])]),
        (''bin'', JStr (name @ ''.exe'')),
        (''checkver'', JObj [(''github'', JStr repository)]),
        (''autoupdate'', JObj [
           (''architecture'', JObj [
              (''64bit'', JObj [
                 (''url'', JStr (repository @ ''/releases/download/v$version/'' @ name
                                   @ ''-windows-x86_64.zip''))])])])]))))))))))))\<close>

text \<open>\<^verbatim>\<open>generate_snapcraft_yaml\<close>: the Snapcraft YAML.\<close>

definition generate_snapcraft_yaml ::
  "(string \<Rightarrow> string option) \<Rightarrow> (string \<rightharpoonup> pyval) \<Rightarrow> bool \<Rightarrow> error + string" where
  \<open>generate_snapcraft_yaml net metadata calculate_hashes =
     bind_e (item metadata ''name'') (\<lambda>v_name.
     bind_e (sanitize_input v_name 50 (Some name_chars)) (\<lambda>name.
     bind_e (item metadata ''version'') (\<lambda>v_version.
     bind_e (validate_version v_version) (\<lambda>version.
     bind_e (item metadata ''repository'') (\<lambda>v_repository.
     bind_e (validate_url v_repository) (\<lambda>repository.
     bind_e (item metadata ''description'') (\<lambda>description.
     Inr (py_join [NL] [
        ''name: '' @ name,
        ''base: core22'',
        ''version: '' @ SQ @ version @ SQ,
        ''summary: '' @ py_str description,
        ''description: |'',
        ''  '' @ py_str description,
        ''  '',
        ''  Features:'',
        ''  - Real-time monitoring of Celery workers and tasks'',
        ''  - Task management (retry, revoke, purge queues)'',
        ''  - Redis broker support with real Celery protocol integration'',
        ''  - Intuitive terminal interface with vim-style navigation'',
        ''  - Cross-platform support'',
        [],
        ''grade: stable'',
        ''confinement: strict'',
        [],
        ''architectures:'',
        ''  - build-on: amd64'',
        ''  - build-on: arm64'',
        [],
        ''apps:'',
        ''  '' @ name @ '':'',
        ''    command: bin/'' @ name,
        ''    plugs:'',
        ''      - network'',
        ''      - network-bind'',
        ''      - home'',
        [],
        ''parts:'',
        ''  '' @ name @ '':'',
        ''    plugin: rust'',
        ''    source: '' @ repository @ ''.git'',
        ''    source-tag: v'' @ version,
        ''    rust-features: []'',
        ''    build-packages:'',
        ''      - build-essential'',
        ''      - pkg-config'',
        ''    override-build: |'',
        ''      craftctl default'',
        ''      # Strip the binary to reduce size'',
        ''      strip $CRAFT_PART_INSTALL/bin/'' @ name]))))))))\<close>

section \<open>Files and processes\<close>

text \<open>
  The part of the machine the two scripts touch. \<open>files\<close> lists the regular files: the path
  relative to the project root and the text of the file, in the order in which a directory
  scan meets them. \<open>dirs\<close> names directories that exist even when no listed file lies
  below them. \<open>spawned\<close> records the command line of every subprocess run so far.
  The text of a file is the text Python's text mode gives when it reads the file, with every
  line end already turned into one newline character. A file that exists is a readable text
  file, writing a file succeeds, no regular file stands where the path of another file
  needs a directory, and no directory stands at a path the scripts open as a file.
\<close>

record world =
  files :: "(string \<times> string) list"
  dirs :: "string list"
  spawned :: "string list list"

definition file_exists :: "world \<Rightarrow> string \<Rightarrow> bool" where
  "file_exists w p = (map_of (files w) p \<noteq> None)"

definition read_file :: "world \<Rightarrow> string \<Rightarrow> string" where
  "read_file w p = (case map_of (files w) p of None \<Rightarrow> [] | Some content \<Rightarrow> content)"

definition write_file :: "string \<Rightarrow> string \<Rightarrow> world \<Rightarrow> world" where
  "write_file p content w = w\<lparr>files := AList.update p content (files w)\<rparr>"

text \<open>
  \<^verbatim>\<open>Path.exists\<close>: the path is a regular file, or a directory, listed or above a listed file.
  \<^verbatim>\<open>Path.is_dir\<close>: the path exists and is no regular file.
\<close>

definition path_exists :: "world \<Rightarrow> string \<Rightarrow> bool" where
  "path_exists w p =
     (file_exists w p \<or> p \<in> set (dirs w)
      \<or> list_ex (\<lambda>f. prefix (p @ ''/'') (fst f)) (files w))"

definition is_dir :: "world \<Rightarrow> string \<Rightarrow> bool" where
  "is_dir w p = (path_exists w p \<and> \<not> file_exists w p)"

section \<open>The generator driver (packaging/generate_packages.py, main)\<close>

definition generators ::
  "(string \<times> ((string \<Rightarrow> string option) \<Rightarrow> (string \<rightharpoonup> pyval) \<Rightarrow> bool \<Rightarrow> error + string)) list" where
  "generators =
     [(''aur/PKGBUILD'', generate_pkgbuild_source),
      (''aur/PKGBUILD-bin'', generate_pkgbuild_bin),
      (''homebrew/lazycelery.rb'', generate_homebrew_formula),
      (''chocolatey/lazycelery.nuspec'', generate_chocolatey_nuspec),
      (''scoop/lazycelery.json'', generate_scoop_manifest),
      (''snap/snapcraft.yaml'', generate_snapcraft_yaml)]"

text \<open>
  The loop over the generators: a generator that raises is skipped, the others write their
  file below the directory of the script, \<^verbatim>\<open>packaging\<close>.
\<close>

fun write_packages ::
  "(string \<Rightarrow> string option) \<Rightarrow> (string \<rightharpoonup> pyval) \<Rightarrow> bool
   \<Rightarrow> (string \<times> ((string \<Rightarrow> string option) \<Rightarrow> (string \<rightharpoonup> pyval) \<Rightarrow> bool \<Rightarrow> error + string)) list
   \<Rightarrow> world \<Rightarrow> world" where
  "write_packages net metadata calculate_hashes [] w = w"
| "write_packages net metadata calculate_hashes (g # rest) w =
     (case (snd g) net metadata calculate_hashes of
        Inl e \<Rightarrow> write_packages net metadata calculate_hashes rest w
      | Inr content \<Rightarrow>
          write_packages net metadata calculate_hashes rest
            (write_file (''packaging/'' @ fst g) content w))"

text \<open>
  \<^verbatim>\<open>main\<close> of the generator script, run with the argument list \<open>argv\<close>; the result is the
  new state of the files and the exit status. An invalid metadata value ends the run with
  status 1, by \<^verbatim>\<open>sys.exit(1)\<close> or by an uncaught \<^verbatim>\<open>TypeError\<close>.
\<close>

definition generate_packages_main ::
  "(string \<Rightarrow> string option) \<Rightarrow> string list \<Rightarrow> world \<Rightarrow> world \<times> nat" where
  "generate_packages_main net argv w =
     (let calculate_hashes = (''--calculate-hashes'' \<in> set argv) in
      if \<not> file_exists w ''Cargo.toml'' then (w, 1)
      else
        let metadata = load_cargo_metadata (read_file w ''Cargo.toml'') in
        case bind_e (item metadata ''version'') (\<lambda>v_version.
             bind_e (validate_version v_version) (\<lambda>version.
             bind_e (item metadata ''repository'') (\<lambda>v_repository.
             bind_e (validate_url v_repository) (\<lambda>repository.
             bind_e (item metadata ''homepage'') (\<lambda>v_homepage.
             bind_e (validate_url v_homepage) (\<lambda>homepage.
             bind_e (item metadata ''name'') (\<lambda>v_name.
             sanitize_input v_name 50 (Some name_chars)))))))) of
          Inl e \<Rightarrow> (w, 1)
        | Inr name \<Rightarrow> (write_packages net metadata calculate_hashes generators w, 0))"

section \<open>Version consistency checker (scripts/validate-versions.py)\<close>

text \<open>\<^verbatim>\<open>re.search(p, s)\<close>: the preferred match at the first position that has one.\<close>

fun re_search_from :: "rx \<Rightarrow> nat \<Rightarrow> string \<Rightarrow> string option option" where
  "re_search_from p n [] =
     (case rmatch p (n, [], None) of [] \<Rightarrow> None | m # ms \<Rightarrow> Some (snd (snd m)))"
| "re_search_from p n (c # cs) =
     (case rmatch p (n, c # cs, None) of
        [] \<Rightarrow> re_search_from p (Suc n) cs
      | m # ms \<Rightarrow> Some (snd (snd m)))"

definition re_search :: "rx \<Rightarrow> string \<Rightarrow> string option option" where
  "re_search p s = re_search_from p 0 s"

text \<open>
  \<^verbatim>\<open>re.sub(p, repl, s)\<close> for a replacement text without backslash, which is inserted as it
  is: every match, found from left to right, is replaced. A replacement text with a
  backslash is a template with escapes, which is not modelled: the result is \<open>None\<close>.
\<close>

function re_sub_from :: "rx \<Rightarrow> string \<Rightarrow> nat \<Rightarrow> string \<Rightarrow> string" where
  "re_sub_from p repl n s =
     (case rmatch p (n, s, None) of
        [] \<Rightarrow> (case s of [] \<Rightarrow> [] | c # cs \<Rightarrow> c # re_sub_from p repl (Suc n) cs)
      | m # ms \<Rightarrow>
          if length (fst (snd m)) < length s
          then repl @ re_sub_from p repl (fst m) (fst (snd m))
          else (case s of [] \<Rightarrow> repl | c # cs \<Rightarrow> repl @ c # re_sub_from p repl (Suc n) cs))"
  by pat_completeness auto
termination
  by (relation "measure (\<lambda>(p, repl, n, s). length s)") auto

declare re_sub_from.simps [simp del]

definition re_sub :: "rx \<Rightarrow> string \<Rightarrow> string \<Rightarrow> string option" where
  "re_sub p repl s = (if BS \<in> set repl then None else Some (re_sub_from p repl 0 s))"

text \<open>The two lists of messages of a \<^verbatim>\<open>VersionValidator\<close>.\<close>

record validator =
  errors :: "string list"
  warnings :: "string list"

definition add_error :: "string \<Rightarrow> validator \<Rightarrow> validator" where
  "add_error msg v = v\<lparr>errors := errors v @ [msg]\<rparr>"

definition add_warning :: "string \<Rightarrow> validator \<Rightarrow> validator" where
  "add_warning msg v = v\<lparr>warnings := warnings v @ [msg]\<rparr>"

text \<open>The truth value Python gives an optional text: \<open>None\<close> and the empty text are false.\<close>

definition truthy :: "string option \<Rightarrow> bool" where
  "truthy x = (case x of None \<Rightarrow> False | Some s \<Rightarrow> s \<noteq> [])"

text \<open>\<^verbatim>\<open>VersionValidator.parse_toml_simple\<close>: every value is a text.\<close>

definition vv_toml_step :: "string \<Rightarrow> bool \<times> (string \<rightharpoonup> string) \<Rightarrow> bool \<times> (string \<rightharpoonup> string)" where
  "vv_toml_step raw st =
     (let in_package = fst st; data = snd st; line = strip raw in
      if line = ''[package]'' then (True, data)
      else if prefix ''['' line \<and> line \<noteq> ''[package]'' then (False, data)
      else if in_package \<and> CHR ''='' \<in> set line then
        (in_package,
         data(strip (fst (split1 (CHR ''='') line))
                \<mapsto> strip_chars quote_chars (strip (snd (split1 (CHR ''='') line)))))
      else (in_package, data))"

definition vv_parse_toml_simple :: "string \<Rightarrow> (string \<rightharpoonup> string)" where
  "vv_parse_toml_simple content =
     snd (foldl (\<lambda>st line. vv_toml_step line st) (False, Map.empty) (split_on NL content))"

definition get_cargo_version :: "world \<Rightarrow> validator \<Rightarrow> string option \<times> validator" where
  "get_cargo_version w v =
     (if \<not> file_exists w ''Cargo.toml'' then (None, add_error ''Cargo.toml not found'' v)
      else (vv_parse_toml_simple (read_file w ''Cargo.toml'') ''version'', v))"

definition get_cargo_rust_version :: "world \<Rightarrow> string option" where
  "get_cargo_rust_version w =
     (if \<not> file_exists w ''Cargo.toml'' then None
      else vv_parse_toml_simple (read_file w ''Cargo.toml'') ''rust-version'')"

text \<open>The loop of \<^verbatim>\<open>get_mise_rust_version\<close> over the lines, with its flag \<^verbatim>\<open>in_tools\<close>.\<close>

fun mise_scan :: "bool \<Rightarrow> string list \<Rightarrow> string option" where
  "mise_scan in_tools [] = None"
| "mise_scan in_tools (raw # rest) =
     (let line = strip raw in
      if line = ''[tools]'' then mise_scan True rest
      else if prefix ''['' line \<and> line \<noteq> ''[tools]'' then mise_scan False rest
      else if in_tools \<and> py_in ''rust'' line \<and> CHR ''='' \<in> set line then
        Some (strip_chars quote_chars (strip (snd (split1 (CHR ''='') line))))
      else mise_scan in_tools rest)"

definition get_mise_rust_version :: "world \<Rightarrow> string option" where
  "get_mise_rust_version w =
     (if \<not> file_exists w ''.mise.toml'' then None
      else mise_scan False (split_on NL (read_file w ''.mise.toml'')))"

text \<open>The pattern \<^verbatim>\<open>FROM rust:([0-9.]+)\<close>.\<close>

definition dockerfile_rx :: rx where
  "dockerfile_rx = Seq (Lit ''FROM rust:'') (Grp (Plus (Cls (digits @ ''.''))))"

definition get_dockerfile_rust_version :: "world \<Rightarrow> string option" where
  "get_dockerfile_rust_version w =
     (if \<not> file_exists w ''Dockerfile'' then None
      else (case re_search dockerfile_rx (read_file w ''Dockerfile'') of
              None \<Rightarrow> None
            | Some g \<Rightarrow> g))"

definition validate_rust_versions :: "world \<Rightarrow> validator \<Rightarrow> bool \<times> validator" where
  "validate_rust_versions w v =
     (let cargo_rust = get_cargo_rust_version w;
          mise_rust = get_mise_rust_version w;
          docker_rust = get_dockerfile_rust_version w;
          s0 = (True, v);
          s1 = (if \<not> truthy cargo_rust
                then (False, add_error ''No rust-version found in Cargo.toml'' (snd s0))
                else s0);
          s2 = (if \<not> truthy mise_rust
                then (False, add_error ''No Rust version found in .mise.toml'' (snd s1))
                else s1);
          s3 = (if \<not> truthy docker_rust
                then (fst s2, add_warning ''No Rust version found in Dockerfile'' (snd s2))
                else s2);
          s4 = (if truthy cargo_rust \<and> truthy mise_rust \<and> the cargo_rust \<noteq> the mise_rust
                then (False, add_error (''Rust version mismatch: Cargo.toml='' @ the cargo_rust
                                          @ '', .mise.toml='' @ the mise_rust) (snd s3))
                else s3);
          s5 = (if truthy cargo_rust \<and> truthy docker_rust \<and> the cargo_rust \<noteq> the docker_rust
                then (False, add_error (''Rust version mismatch: Cargo.toml='' @ the cargo_rust
                                          @ '', Dockerfile='' @ the docker_rust) (snd s4))
                else s4);
          s6 = (if truthy mise_rust \<and> truthy docker_rust \<and> the mise_rust \<noteq> the docker_rust
                then (False, add_error (''Rust version mismatch: .mise.toml='' @ the mise_rust
                                          @ '', Dockerfile='' @ the docker_rust) (snd s5))
                else s5)
      in s6)"

text \<open>The package files and the pattern that finds the version in each.\<close>

definition package_files :: "(string \<times> rx) list" where
  \<open>package_files =
     [(''packaging/chocolatey/lazycelery.nuspec'',
         Seq (Lit ''<version>'') (Seq (Grp (Plus (NCls ''<''))) (Lit ''</version>''))),
      (''packaging/homebrew/lazycelery.rb'',
         Seq (Lit ''url "'') (Seq (Star (NCls [NL])) (Seq (Lit ''v'')
           (Seq (Grp (Plus (Cls (digits @ ''.'')))) (Lit ''.tar.gz"''))))),
      (''packaging/scoop/lazycelery.json'',
         Seq (Lit ''"version":'') (Seq (Star (Cls [CHR 0x09, CHR 0x0A, CHR 0x0B, CHR 0x0C,
             CHR 0x0D, CHR 0x1C, CHR 0x1D, CHR 0x1E, CHR 0x1F, CHR 0x20, CHR 0x85, CHR 0xA0]))
           (Seq (Lit ''"'') (Seq (Grp (Plus (NCls ''"''))) (Lit ''"''))))),
      (''packaging/snap/snapcraft.yaml'',
         Seq (Lit ''version:'') (Seq (Star (Cls [CHR 0x09, CHR 0x0A, CHR 0x0B, CHR 0x0C,
             CHR 0x0D, CHR 0x1C, CHR 0x1D, CHR 0x1E, CHR 0x1F, CHR 0x20, CHR 0x85, CHR 0xA0]))
           (Seq (Lit SQ) (Seq (Grp (Plus (NCls SQ))) (Lit SQ))))),
      (''packaging/aur/PKGBUILD'',
         Seq (Lit ''pkgver='') (Grp (Plus (Cls (digits @ ''.''))))),
      (''packaging/aur/PKGBUILD-bin'',
         Seq (Lit ''pkgver='') (Grp (Plus (Cls (digits @ ''.'')))))]\<close>

text \<open>
  The loop of \<^verbatim>\<open>validate_package_versions\<close> over the package files; the state is
  \<^verbatim>\<open>all_good\<close> and the validator.
\<close>

fun check_package_files ::
  "world \<Rightarrow> string \<Rightarrow> (string \<times> rx) list \<Rightarrow> bool \<times> validator \<Rightarrow> bool \<times> validator" where
  "check_package_files w cargo_version [] st = st"
| "check_package_files w cargo_version (f # rest) st =
     (if \<not> file_exists w (fst f) then
        check_package_files w cargo_version rest
          (fst st, add_warning (''Package file not found: '' @ fst f) (snd st))
      else
        (case re_search (snd f) (read_file w (fst f)) of
           None \<Rightarrow>
             check_package_files w cargo_version rest
               (fst st, add_warning (''Could not find version in '' @ fst f) (snd st))
         | Some g \<Rightarrow>
             if g \<noteq> Some cargo_version then
               check_package_files w cargo_version rest
                 (False, add_error (''Version mismatch in '' @ fst f @ '': found=''
                                      @ (case g of None \<Rightarrow> ''None'' | Some found_version \<Rightarrow> found_version)
                                      @ '', expected='' @ cargo_version) (snd st))
             else check_package_files w cargo_version rest st))"

definition validate_package_versions :: "world \<Rightarrow> validator \<Rightarrow> bool \<times> validator" where
  "validate_package_versions w v =
     (let r = get_cargo_version w v; cargo_version = fst r; v1 = snd r in
      if \<not> truthy cargo_version
      then (False, add_error ''Could not determine version from Cargo.toml'' v1)
      else if \<not> path_exists w ''packaging''
      then (True, add_warning ''No packaging directory found'' v1)
      else check_package_files w (the cargo_version) package_files (True, v1))"

text \<open>\<^verbatim>\<open>Path.suffix\<close>: the extension of the last component of a path.\<close>

definition path_suffix :: "string \<Rightarrow> string" where
  "path_suffix p =
     (let name = last (split_on (CHR ''/'') p);
          ext = rev (takeWhile (\<lambda>c. c \<noteq> CHR ''.'') (rev name))
      in if CHR ''.'' \<in> set name \<and> 0 < length name - length ext - 1 \<and> ext \<noteq> []
         then CHR ''.'' # ext else [])"

text \<open>
  \<^verbatim>\<open>check_placeholder_hashes\<close>: a warning for every file below \<^verbatim>\<open>packaging\<close> with one of
  the extensions that contains the placeholder. \<^verbatim>\<open>rglob\<close> finds nothing below a path that is
  not a directory.
\<close>

definition check_placeholder_hashes :: "world \<Rightarrow> validator \<Rightarrow> validator" where
  "check_placeholder_hashes w v =
     (if \<not> path_exists w ''packaging'' then v
      else if \<not> is_dir w ''packaging'' then v
      else foldl (\<lambda>v f.
                    if prefix ''packaging/'' (fst f)
                       \<and> path_suffix (fst f) \<in> set [''.rb'', ''.json'', ''.yaml'', ''.yml'', ''.nuspec'']
                       \<and> py_in PLACEHOLDER (snd f)
                    then add_warning (''Placeholder SHA256 found in '' @ fst f) v
                    else v)
                 v (files w))"

text \<open>The patterns \<^verbatim>\<open>rust-version = "[^"]*"\<close> and \<^verbatim>\<open>FROM rust:[0-9.]+\<close>.\<close>

definition cargo_fix_rx :: rx where
  "cargo_fix_rx =
     Seq (Lit (''rust-version = '' @ [CHR 0x22])) (Seq (Star (NCls [CHR 0x22])) (Lit [CHR 0x22]))"

definition dockerfile_fix_rx :: rx where
  "dockerfile_fix_rx = Seq (Lit ''FROM rust:'') (Plus (Cls (digits @ ''.'')))"

text \<open>
  The rewriting of one file in \<^verbatim>\<open>fix_rust_versions\<close>: the new state of the files and
  whether the file changed.
\<close>

definition fix_file :: "string \<Rightarrow> rx \<Rightarrow> string \<Rightarrow> world \<Rightarrow> (world \<times> bool) option" where
  "fix_file p pattern repl w =
     (if file_exists w p then
        (case re_sub pattern repl (read_file w p) of
           None \<Rightarrow> None
         | Some new_content \<Rightarrow>
             if new_content \<noteq> read_file w p then Some (write_file p new_content w, True)
             else Some (w, False))
      else Some (w, False))"

definition fix_rust_versions :: "string \<Rightarrow> world \<Rightarrow> (world \<times> bool) option" where
  "fix_rust_versions target_version w =
     (case fix_file ''Cargo.toml'' cargo_fix_rx
             (''rust-version = '' @ [CHR 0x22] @ target_version @ [CHR 0x22]) w of
        None \<Rightarrow> None
      | Some r1 \<Rightarrow>
          (case fix_file ''Dockerfile'' dockerfile_fix_rx (''FROM rust:'' @ target_version)
                  (fst r1) of
             None \<Rightarrow> None
           | Some r2 \<Rightarrow> Some (fst r2, snd r1 \<or> snd r2)))"

text \<open>
  \<^verbatim>\<open>fix_package_versions\<close> runs the generator script as a subprocess, with no argument
  after the path of the script. The script found at \<^verbatim>\<open>packaging/generate_packages.py\<close> is
  taken to be the generator of this repository.
\<close>

definition sys_executable :: string where
  "sys_executable = ''python3''"

definition fix_package_versions ::
  "(string \<Rightarrow> string option) \<Rightarrow> string \<Rightarrow> world \<Rightarrow> world \<times> bool" where
  "fix_package_versions net target_version w =
     (if \<not> file_exists w ''packaging/generate_packages.py'' then (w, False)
      else
        let argv = [''packaging/generate_packages.py''];
            r = generate_packages_main net argv
                  (w\<lparr>spawned := spawned w @ [sys_executable # argv]\<rparr>)
        in (fst r, snd r = 0))"

definition validate_all :: "world \<Rightarrow> validator \<Rightarrow> bool \<times> validator" where
  "validate_all w v =
     (let r1 = validate_rust_versions w v;
          r2 = validate_package_versions w (snd r1);
          v3 = check_placeholder_hashes w (snd r2)
      in (fst r1 \<and> fst r2, v3))"

text \<open>
  \<^verbatim>\<open>main\<close> of the checker, with the flag \<^verbatim>\<open>--fix\<close> as \<open>fix\<close>: the final state of the files,
  the validator that is printed and the exit status. The result is \<open>None\<close> only where
  \<open>re_sub\<close> is.
\<close>

definition checker_main ::
  "(string \<Rightarrow> string option) \<Rightarrow> bool \<Rightarrow> world \<Rightarrow> (world \<times> validator \<times> nat) option" where
  "checker_main net fix w =
     (let r = validate_all w \<lparr>errors = [], warnings = []\<rparr>; is_valid = fst r; v1 = snd r in
      if fix \<and> \<not> is_valid then
        let mise_rust = get_mise_rust_version w;
            c = get_cargo_version w v1; cargo_version = fst c; v2 = snd c
        in (case (if truthy mise_rust then fix_rust_versions (the mise_rust) w
                  else Some (w, False)) of
              None \<Rightarrow> None
            | Some f1 \<Rightarrow>
                let w2 = (if truthy cargo_version
                          then fst (fix_package_versions net (the cargo_version) (fst f1))
                          else fst f1);
                    r' = validate_all w2 (v2\<lparr>errors := [], warnings := []\<rparr>)
                in Some (w2, snd r', if fst r' then 0 else 1))
      else Some (w, v1, if is_valid then 0 else 1))"

section \<open>Notions used to state the properties\<close>

text \<open>The network on which every download fails.\<close>

definition offline :: "string \<Rightarrow> string option" where
  "offline url = None"

text \<open>
  A field of the metadata is accepted by a validating function when the field is present,
  is a text, and the function returns that text.
\<close>

definition accepts :: "(string \<rightharpoonup> pyval) \<Rightarrow> string \<Rightarrow> (pyval \<Rightarrow> error + string) \<Rightarrow> bool" where
  "accepts m k check = (case m k of Some (PStr s) \<Rightarrow> check (PStr s) = Inr s | _ \<Rightarrow> False)"

text \<open>
  A value is validated when one of the validating functions, with the arguments the
  generators give them or with the default ones, returns normally on it.
\<close>

definition validated :: "pyval \<Rightarrow> bool" where
  "validated v =
     (\<not> isl (sanitize_input v 256 None) \<or> \<not> isl (sanitize_input v 50 (Some name_chars))
      \<or> \<not> isl (validate_version v) \<or> \<not> isl (validate_url v))"








text \<open>
  Two states of the files used as examples: a project with consistent versions and no
  Dockerfile, and an empty project.
\<close>

definition w_ok :: world where
  \<open>w_ok = \<lparr>files = [(''Cargo.toml'', ''[package]\<newline>version = "1.2.3"\<newline>rust-version = "1.75.0"''),
                     (''.mise.toml'', ''[tools]\<newline>rust = "1.75.0"'')],
            dirs = [], spawned = []\<rparr>\<close>

definition w_empty :: world where
  "w_empty = \<lparr>files = [], dirs = [], spawned = []\<rparr>"

text \<open>
  A project whose source PKGBUILD holds an older version and a computed hash.
\<close>

definition w_fix :: world where
  \<open>w_fix = \<lparr>files = [(''Cargo.toml'', ''[package]\<newline>version = "1.2.3"''),
                      (''packaging/generate_packages.py'', ''#!/usr/bin/env python3''),
                      (''packaging/aur/PKGBUILD'',
                         ''pkgver=1.2.2\<newline>sha256sums=('' @ SQ @ ''0123456789abcdef'' @ SQ @ '')'')],
             dirs = [], spawned = []\<rparr>\<close>

text \<open>The literal text with which the pattern of the \<^verbatim>\<open>Cargo.toml\<close> fix begins, and the line before and after the fix.\<close>

definition needle :: string where
  "needle = ''rust-version = '' @ [CHR 0x22]"

definition old_line :: string where
  \<open>old_line = ''rust-version = "1.74.0"''\<close>

definition new_line :: string where
  \<open>new_line = ''rust-version = "1.75.0"''\<close>

text \<open>
  Two projects whose \<^verbatim>\<open>Cargo.toml\<close> declares the toolchain 1.74.0 while \<^verbatim>\<open>.mise.toml\<close> pins
  1.75.0: one writes the declaration without spaces around the equals sign, one with.
\<close>

definition w_unspaced :: world where
  \<open>w_unspaced = \<lparr>files = [(''Cargo.toml'',
                             ''[package]\<newline>version = "1.2.3"\<newline>rust-version="1.74.0"''),
                           (''.mise.toml'', ''[tools]\<newline>rust = "1.75.0"'')],
                  dirs = [], spawned = []\<rparr>\<close>

definition w_drift :: world where
  \<open>w_drift = \<lparr>files = [(''Cargo.toml'',
                          ''[package]\<newline>version = "1.2.3"\<newline>rust-version = "1.74.0"\<newline>''),
                        (''.mise.toml'', ''[tools]\<newline>rust = "1.75.0"'')],
               dirs = [], spawned = []\<rparr>\<close>

section \<open>Verified properties\<close>

subsection \<open>Character classes\<close>

lemma lowers_codes: "map char_of [97..<123::nat] = lowers"
  by code_simp

lemma uppers_codes: "map char_of [65..<91::nat] = uppers"
  by code_simp

lemma digits_codes: "map char_of [48..<58::nat] = digits"
  by code_simp

lemma char_in_code_range:
  assumes "a \<le> (of_char c :: nat)" and "of_char c < b"
  shows "c \<in> set (map char_of [a..<b])"
proof -
  from assms have "(of_char c :: nat) \<in> set [a..<b]" by simp
  then have "char_of (of_char c :: nat) \<in> char_of ` set [a..<b]" by (rule imageI)
  then show ?thesis by simp
qed

lemma lowers_iff: "c \<in> set lowers \<longleftrightarrow> 97 \<le> (of_char c :: nat) \<and> (of_char c :: nat) \<le> 122"
proof
  assume "c \<in> set lowers"
  then show "97 \<le> (of_char c :: nat) \<and> (of_char c :: nat) \<le> 122"
    unfolding lowers_def by auto
next
  assume "97 \<le> (of_char c :: nat) \<and> (of_char c :: nat) \<le> 122"
  then show "c \<in> set lowers"
    using char_in_code_range[of 97 c 123] unfolding lowers_codes by simp
qed

lemma uppers_iff: "c \<in> set uppers \<longleftrightarrow> 65 \<le> (of_char c :: nat) \<and> (of_char c :: nat) \<le> 90"
proof
  assume "c \<in> set uppers"
  then show "65 \<le> (of_char c :: nat) \<and> (of_char c :: nat) \<le> 90"
    unfolding uppers_def by auto
next
  assume "65 \<le> (of_char c :: nat) \<and> (of_char c :: nat) \<le> 90"
  then show "c \<in> set uppers"
    using char_in_code_range[of 65 c 91] unfolding uppers_codes by simp
qed

lemma digits_iff: "c \<in> set digits \<longleftrightarrow> 48 \<le> (of_char c :: nat) \<and> (of_char c :: nat) \<le> 57"
proof
  assume "c \<in> set digits"
  then show "48 \<le> (of_char c :: nat) \<and> (of_char c :: nat) \<le> 57"
    unfolding digits_def by auto
next
  assume "48 \<le> (of_char c :: nat) \<and> (of_char c :: nat) \<le> 57"
  then show "c \<in> set digits"
    using char_in_code_range[of 48 c 58] unfolding digits_codes by simp
qed

lemma default_allowed_chars_split:
  "default_allowed_chars = lowers @ uppers @ digits @ ''.-_/:''"
  by (simp add: default_allowed_chars_def lowers_def uppers_def digits_def)

lemma default_allowed_chars_iff:
  "c \<in> set default_allowed_chars \<longleftrightarrow>
     c \<in> set lowers \<or> c \<in> set uppers \<or> c \<in> set digits \<or> c \<in> set ''.-_/:''"
  unfolding default_allowed_chars_split by auto

subsection \<open>The sanitizer\<close>

text \<open>
  Claim C7. On a text within the length bound whose characters all belong to the configured
  character set, \<open>sanitize_input\<close> returns the text unchanged; on a text that is too long or
  has a character outside the set, and on a value that is not text, it fails with
  \<open>ValueError\<close>; the default character set holds exactly the ASCII letters, the digits and
  the characters \<^verbatim>\<open>. - _ / :\<close>.
\<close>

theorem sanitize_input_identity_or_error:
  "(int (length s) \<le> n
      \<and> set s \<subseteq> set (case cs of None \<Rightarrow> default_allowed_chars | Some a \<Rightarrow> a)
      \<longrightarrow> sanitize_input (PStr s) n cs = Inr s)
   \<and> (int (length s) > n
      \<or> \<not> set s \<subseteq> set (case cs of None \<Rightarrow> default_allowed_chars | Some a \<Rightarrow> a)
      \<longrightarrow> sanitize_input (PStr s) n cs = Inl ValueError)
   \<and> sanitize_input (PList xs) n cs = Inl ValueError
   \<and> (c \<in> set default_allowed_chars \<longleftrightarrow>
        (97 \<le> (of_char c :: nat) \<and> (of_char c :: nat) \<le> 122)
      \<or> (65 \<le> (of_char c :: nat) \<and> (of_char c :: nat) \<le> 90)
      \<or> (48 \<le> (of_char c :: nat) \<and> (of_char c :: nat) \<le> 57)
      \<or> c \<in> {CHR ''.'', CHR ''-'', CHR ''_'', CHR ''/'', CHR '':''})"
proof (intro conjI)
  show "int (length s) \<le> n
      \<and> set s \<subseteq> set (case cs of None \<Rightarrow> default_allowed_chars | Some a \<Rightarrow> a)
      \<longrightarrow> sanitize_input (PStr s) n cs = Inr s"
    by (auto simp: sanitize_input_def list_ex_iff Let_def split: option.splits)
  show "int (length s) > n
      \<or> \<not> set s \<subseteq> set (case cs of None \<Rightarrow> default_allowed_chars | Some a \<Rightarrow> a)
      \<longrightarrow> sanitize_input (PStr s) n cs = Inl ValueError"
    by (auto simp: sanitize_input_def list_ex_iff Let_def split: option.splits)
  show "sanitize_input (PList xs) n cs = Inl ValueError"
    by (simp add: sanitize_input_def)
  show "c \<in> set default_allowed_chars \<longleftrightarrow>
        (97 \<le> (of_char c :: nat) \<and> (of_char c :: nat) \<le> 122)
      \<or> (65 \<le> (of_char c :: nat) \<and> (of_char c :: nat) \<le> 90)
      \<or> (48 \<le> (of_char c :: nat) \<and> (of_char c :: nat) \<le> 57)
      \<or> c \<in> {CHR ''.'', CHR ''-'', CHR ''_'', CHR ''/'', CHR '':''}"
    unfolding default_allowed_chars_iff lowers_iff uppers_iff digits_iff by simp
qed

theorem sanitize_input_identity_or_error_witness:
  "sanitize_input (PStr ''lazy-celery'') 50 (Some ''abcdefghijklmnopqrstuvwxyz0123456789-'')
     = Inr ''lazy-celery''
   \<and> sanitize_input (PStr ''a b'') 256 None = Inl ValueError
   \<and> CHR ''/'' \<in> set default_allowed_chars"
proof -
  have a: "int (length ''lazy-celery'') \<le> 50
      \<and> set ''lazy-celery''
          \<subseteq> set (case Some ''abcdefghijklmnopqrstuvwxyz0123456789-'' of
                   None \<Rightarrow> default_allowed_chars | Some a \<Rightarrow> a)"
    by simp
  have b: "int (length ''a b'') > 256
      \<or> \<not> set ''a b'' \<subseteq> set (case None of None \<Rightarrow> default_allowed_chars | Some a \<Rightarrow> a)"
    by (simp add: default_allowed_chars_def)
  from a sanitize_input_identity_or_error
           [of "''lazy-celery''" 50 "Some ''abcdefghijklmnopqrstuvwxyz0123456789-''" "[]"
               "CHR ''/''"]
  have 1: "sanitize_input (PStr ''lazy-celery'') 50
             (Some ''abcdefghijklmnopqrstuvwxyz0123456789-'') = Inr ''lazy-celery''"
    by blast
  from b sanitize_input_identity_or_error[of "''a b''" 256 None "[]" "CHR ''/''"]
  have 2: "sanitize_input (PStr ''a b'') 256 None = Inl ValueError"
    by blast
  from sanitize_input_identity_or_error[of "''a b''" 256 None "[]" "CHR ''/''"]
  have 3: "CHR ''/'' \<in> set default_allowed_chars"
    by simp
  from 1 2 3 show ?thesis by blast
qed

subsection \<open>The version validator\<close>

text \<open>
  Claim C2. \<open>validate_version\<close> should fail on every text outside the grammar
  \<^verbatim>\<open>MAJOR.MINOR.PATCH[-prerelease]\<close>. The text \<^verbatim>\<open>1.2.3\<close> followed by a newline is outside
  the grammar, and \<open>validate_version\<close> returns it: \<^verbatim>\<open>$\<close> also matches before a final newline.
\<close>

theorem validate_version_accepts_trailing_newline:
  "validate_version (PStr ''1.2.3\<newline>'') = Inr ''1.2.3\<newline>''
   \<and> \<not> spec_semver ''1.2.3\<newline>''"
  by code_simp

subsection \<open>The loader\<close>





lemma split_on_nonempty: "split_on c s \<noteq> []"
  by (induction s) (auto split: list.splits)














subsection \<open>The generators\<close>

lemma sha256_or_placeholder_off: "sha256_or_placeholder net False url = PLACEHOLDER"
  by (simp add: sha256_or_placeholder_def)

text \<open>
  Claim C6. With hashing disabled a generator does not consult the network, the only
  thing outside its arguments that it could read: two invocations on the same metadata,
  whatever the network answers at either time, return the same text (or the same error).
\<close>

theorem generators_deterministic:
  "generate_pkgbuild_source net1 m False = generate_pkgbuild_source net2 m False
   \<and> generate_pkgbuild_bin net1 m False = generate_pkgbuild_bin net2 m False
   \<and> generate_homebrew_formula net1 m False = generate_homebrew_formula net2 m False
   \<and> generate_chocolatey_nuspec net1 m False = generate_chocolatey_nuspec net2 m False
   \<and> generate_scoop_manifest net1 m False = generate_scoop_manifest net2 m False
   \<and> generate_snapcraft_yaml net1 m False = generate_snapcraft_yaml net2 m False"
  unfolding generate_pkgbuild_source_def generate_pkgbuild_bin_def
    generate_homebrew_formula_def generate_chocolatey_nuspec_def
    generate_scoop_manifest_def generate_snapcraft_yaml_def sha256_or_placeholder_off
  by (intro conjI refl)

lemma bind_e_InrE:
  assumes "bind_e r f = Inr y"
  obtains x where "r = Inr x" and "f x = Inr y"
  using assms by (cases r) (auto simp: bind_e_def)

lemma not_isl_InrE:
  assumes "\<not> isl r"
  obtains y where "r = Inr y"
  using assms by (cases r) auto

lemma item_Inr: "item m k = Inr v \<Longrightarrow> m k = Some v"
  by (auto simp: item_def split: option.splits)

lemma sanitize_input_Inr: "sanitize_input v n cs = Inr s \<Longrightarrow> v = PStr s"
  by (auto simp: sanitize_input_def Let_def split: pyval.splits if_splits)

lemma validate_version_Inr: "validate_version v = Inr s \<Longrightarrow> v = PStr s"
  by (auto simp: validate_version_def split: pyval.splits if_splits)

lemma validate_url_Inr: "validate_url v = Inr s \<Longrightarrow> v = PStr s"
  by (auto simp: validate_url_def split: pyval.splits if_splits)

lemma acceptsI: "m k = Some v \<Longrightarrow> check v = Inr s \<Longrightarrow> v = PStr s \<Longrightarrow> accepts m k check"
  by (simp add: accepts_def)

lemma accepts_name:
  "item m ''name'' = Inr v \<Longrightarrow> sanitize_input v 50 (Some name_chars) = Inr s
   \<Longrightarrow> accepts m ''name'' (\<lambda>v. sanitize_input v 50 (Some name_chars))"
  by (rule acceptsI[where v = v and s = s]) (auto dest: item_Inr sanitize_input_Inr)

lemma accepts_version:
  "item m ''version'' = Inr v \<Longrightarrow> validate_version v = Inr s
   \<Longrightarrow> accepts m ''version'' validate_version"
  by (rule acceptsI[where v = v and s = s]) (auto dest: item_Inr validate_version_Inr)

lemma accepts_url:
  "item m k = Inr v \<Longrightarrow> validate_url v = Inr s \<Longrightarrow> accepts m k validate_url"
  by (rule acceptsI[where v = v and s = s]) (auto dest: item_Inr validate_url_Inr)

lemma pkgbuild_source_validates:
  assumes "\<not> isl (generate_pkgbuild_source net m h)"
  shows "accepts m ''name'' (\<lambda>v. sanitize_input v 50 (Some name_chars))
       \<and> accepts m ''version'' validate_version
       \<and> accepts m ''repository'' validate_url \<and> accepts m ''homepage'' validate_url"
proof -
  from assms obtain out where "generate_pkgbuild_source net m h = Inr out"
    by (rule not_isl_InrE)
  then show ?thesis
    unfolding generate_pkgbuild_source_def
    by (elim bind_e_InrE) (intro conjI accepts_name accepts_version accepts_url; assumption)
qed

lemma pkgbuild_bin_validates:
  assumes "\<not> isl (generate_pkgbuild_bin net m h)"
  shows "accepts m ''name'' (\<lambda>v. sanitize_input v 50 (Some name_chars))
       \<and> accepts m ''version'' validate_version
       \<and> accepts m ''repository'' validate_url \<and> accepts m ''homepage'' validate_url"
proof -
  from assms obtain out where "generate_pkgbuild_bin net m h = Inr out"
    by (rule not_isl_InrE)
  then show ?thesis
    unfolding generate_pkgbuild_bin_def
    by (elim bind_e_InrE) (intro conjI accepts_name accepts_version accepts_url; assumption)
qed

lemma homebrew_formula_validates:
  assumes "\<not> isl (generate_homebrew_formula net m h)"
  shows "accepts m ''name'' (\<lambda>v. sanitize_input v 50 (Some name_chars))
       \<and> accepts m ''version'' validate_version
       \<and> accepts m ''repository'' validate_url \<and> accepts m ''homepage'' validate_url"
proof -
  from assms obtain out where "generate_homebrew_formula net m h = Inr out"
    by (rule not_isl_InrE)
  then show ?thesis
    unfolding generate_homebrew_formula_def
    by (elim bind_e_InrE) (intro conjI accepts_name accepts_version accepts_url; assumption)
qed

lemma chocolatey_nuspec_validates:
  assumes "\<not> isl (generate_chocolatey_nuspec net m h)"
  shows "accepts m ''name'' (\<lambda>v. sanitize_input v 50 (Some name_chars))
       \<and> accepts m ''version'' validate_version \<and> accepts m ''repository'' validate_url"
proof -
  from assms obtain out where "generate_chocolatey_nuspec net m h = Inr out"
    by (rule not_isl_InrE)
  then show ?thesis
    unfolding generate_chocolatey_nuspec_def
    by (elim bind_e_InrE) (intro conjI accepts_name accepts_version accepts_url; assumption)
qed

lemma scoop_manifest_validates:
  assumes "\<not> isl (generate_scoop_manifest net m h)"
  shows "accepts m ''name'' (\<lambda>v. sanitize_input v 50 (Some name_chars))
       \<and> accepts m ''version'' validate_version
       \<and> accepts m ''repository'' validate_url \<and> accepts m ''homepage'' validate_url"
proof -
  from assms obtain out where "generate_scoop_manifest net m h = Inr out"
    by (rule not_isl_InrE)
  then show ?thesis
    unfolding generate_scoop_manifest_def
    by (elim bind_e_InrE) (intro conjI accepts_name accepts_version accepts_url; assumption)
qed

lemma snapcraft_yaml_validates:
  assumes "\<not> isl (generate_snapcraft_yaml net m h)"
  shows "accepts m ''name'' (\<lambda>v. sanitize_input v 50 (Some name_chars))
       \<and> accepts m ''version'' validate_version \<and> accepts m ''repository'' validate_url"
proof -
  from assms obtain out where "generate_snapcraft_yaml net m h = Inr out"
    by (rule not_isl_InrE)
  then show ?thesis
    unfolding generate_snapcraft_yaml_def
    by (elim bind_e_InrE) (intro conjI accepts_name accepts_version accepts_url; assumption)
qed

text \<open>
  Claim C1, as stated, at the configuration whose description is \<^verbatim>\<open>$(id)\<close>: the source
  PKGBUILD is rendered, the description is accepted by none of the validating functions, and
  it stands in the output inside the double quotes of \<^verbatim>\<open>pkgdesc\<close>.
\<close>

theorem unvalidated_description_counterexample:
  \<open>load_cargo_metadata ''[package]\<newline>description = "$(id)"'' ''description''
     = Some (PStr ''$(id)'')
   \<and> \<not> validated (PStr ''$(id)'')
   \<and> \<not> isl (generate_pkgbuild_source offline
               (load_cargo_metadata ''[package]\<newline>description = "$(id)"'') False)
   \<and> py_in ''pkgdesc="$(id)"''
        (projr (generate_pkgbuild_source offline
                  (load_cargo_metadata ''[package]\<newline>description = "$(id)"'') False))\<close>
  by code_simp

text \<open>
  Claim C1, amended. A generator renders its text only when the name passes
  \<open>sanitize_input\<close> (at most 50 characters, lower-case letters, digits and hyphens), the
  version passes \<open>validate_version\<close>, the repository passes \<open>validate_url\<close> and, for the
  two PKGBUILDs, the Homebrew formula and the Scoop manifest, the homepage passes
  \<open>validate_url\<close>. (Description, authors, license and keywords are interpolated as they
  are.)
\<close>

theorem generators_validate_critical_fields:
  "(\<not> isl (generate_pkgbuild_source net m h) \<longrightarrow>
      accepts m ''name'' (\<lambda>v. sanitize_input v 50 (Some name_chars))
      \<and> accepts m ''version'' validate_version
      \<and> accepts m ''repository'' validate_url \<and> accepts m ''homepage'' validate_url)
   \<and> (\<not> isl (generate_pkgbuild_bin net m h) \<longrightarrow>
      accepts m ''name'' (\<lambda>v. sanitize_input v 50 (Some name_chars))
      \<and> accepts m ''version'' validate_version
      \<and> accepts m ''repository'' validate_url \<and> accepts m ''homepage'' validate_url)
   \<and> (\<not> isl (generate_homebrew_formula net m h) \<longrightarrow>
      accepts m ''name'' (\<lambda>v. sanitize_input v 50 (Some name_chars))
      \<and> accepts m ''version'' validate_version
      \<and> accepts m ''repository'' validate_url \<and> accepts m ''homepage'' validate_url)
   \<and> (\<not> isl (generate_chocolatey_nuspec net m h) \<longrightarrow>
      accepts m ''name'' (\<lambda>v. sanitize_input v 50 (Some name_chars))
      \<and> accepts m ''version'' validate_version \<and> accepts m ''repository'' validate_url)
   \<and> (\<not> isl (generate_scoop_manifest net m h) \<longrightarrow>
      accepts m ''name'' (\<lambda>v. sanitize_input v 50 (Some name_chars))
      \<and> accepts m ''version'' validate_version
      \<and> accepts m ''repository'' validate_url \<and> accepts m ''homepage'' validate_url)
   \<and> (\<not> isl (generate_snapcraft_yaml net m h) \<longrightarrow>
      accepts m ''name'' (\<lambda>v. sanitize_input v 50 (Some name_chars))
      \<and> accepts m ''version'' validate_version \<and> accepts m ''repository'' validate_url)"
  using pkgbuild_source_validates[of net m h] pkgbuild_bin_validates[of net m h]
    homebrew_formula_validates[of net m h] chocolatey_nuspec_validates[of net m h]
    scoop_manifest_validates[of net m h] snapcraft_yaml_validates[of net m h]
  by blast

theorem generators_validate_critical_fields_witness:
  "\<not> isl (generate_pkgbuild_source offline (load_cargo_metadata []) False)
   \<and> \<not> isl (generate_pkgbuild_bin offline (load_cargo_metadata []) False)
   \<and> \<not> isl (generate_homebrew_formula offline (load_cargo_metadata []) False)
   \<and> \<not> isl (generate_chocolatey_nuspec offline (load_cargo_metadata []) False)
   \<and> \<not> isl (generate_scoop_manifest offline (load_cargo_metadata []) False)
   \<and> \<not> isl (generate_snapcraft_yaml offline (load_cargo_metadata []) False)
   \<and> accepts (load_cargo_metadata []) ''name'' (\<lambda>v. sanitize_input v 50 (Some name_chars))
   \<and> accepts (load_cargo_metadata []) ''version'' validate_version
   \<and> accepts (load_cargo_metadata []) ''repository'' validate_url
   \<and> accepts (load_cargo_metadata []) ''homepage'' validate_url"
proof -
  have 1: "\<not> isl (generate_pkgbuild_source offline (load_cargo_metadata []) False)"
    by code_simp
  have 2: "\<not> isl (generate_pkgbuild_bin offline (load_cargo_metadata []) False)"
    by code_simp
  have 3: "\<not> isl (generate_homebrew_formula offline (load_cargo_metadata []) False)"
    by code_simp
  have 4: "\<not> isl (generate_chocolatey_nuspec offline (load_cargo_metadata []) False)"
    by code_simp
  have 5: "\<not> isl (generate_scoop_manifest offline (load_cargo_metadata []) False)"
    by code_simp
  have 6: "\<not> isl (generate_snapcraft_yaml offline (load_cargo_metadata []) False)"
    by code_simp
  from 1 2 3 4 5 6
    generators_validate_critical_fields[of offline "load_cargo_metadata []" False]
  show ?thesis by blast
qed

subsection \<open>The checker\<close>

lemma validate_rust_versions_errors:
  "\<exists>es. errors (snd (validate_rust_versions w v)) = errors v @ es
        \<and> (fst (validate_rust_versions w v) \<longleftrightarrow> es = [])"
  by (simp add: validate_rust_versions_def Let_def add_error_def add_warning_def)

lemma check_package_files_errors:
  "\<exists>es. errors (snd (check_package_files w cv fs st)) = errors (snd st) @ es
        \<and> (fst (check_package_files w cv fs st) \<longleftrightarrow> fst st \<and> es = [])"
proof (induction fs arbitrary: st)
  case Nil
  then show ?case by simp
next
  case (Cons f fs)
  show ?case
  proof (cases "file_exists w (fst f)")
    case False
    with Cons[of "(fst st, add_warning (''Package file not found: '' @ fst f) (snd st))"]
    show ?thesis by (simp add: add_warning_def)
  next
    case True
    show ?thesis
    proof (cases "re_search (snd f) (read_file w (fst f))")
      case None
      with True Cons[of "(fst st, add_warning (''Could not find version in '' @ fst f) (snd st))"]
      show ?thesis by (simp add: add_warning_def)
    next
      case (Some g)
      show ?thesis
      proof (cases "g = Some cv")
        case True
        with \<open>file_exists w (fst f)\<close> Some Cons[of st] show ?thesis by simp
      next
        case False
        let ?m = "''Version mismatch in '' @ fst f @ '': found=''
                   @ (case g of None \<Rightarrow> ''None'' | Some found_version \<Rightarrow> found_version)
                   @ '', expected='' @ cv"
        from Cons[of "(False, add_error ?m (snd st))"]
        obtain es where es: "errors (snd (check_package_files w cv fs (False, add_error ?m (snd st))))
              = errors (snd st) @ ?m # es"
           and f: "\<not> fst (check_package_files w cv fs (False, add_error ?m (snd st)))"
          by (auto simp: add_error_def)
        from False \<open>file_exists w (fst f)\<close> Some es f show ?thesis by simp
      qed
    qed
  qed
qed

lemma validate_package_versions_errors:
  "\<exists>es. errors (snd (validate_package_versions w v)) = errors v @ es
        \<and> (fst (validate_package_versions w v) \<longleftrightarrow> es = [])"
proof -
  obtain cvo v1 where g: "get_cargo_version w v = (cvo, v1)" by (cases "get_cargo_version w v")
  then obtain e1 where e1: "errors v1 = errors v @ e1"
    by (auto simp: get_cargo_version_def add_error_def split: if_splits)
  from g have tr: "truthy cvo \<Longrightarrow> e1 = []" using e1
    by (auto simp: get_cargo_version_def add_error_def truthy_def split: if_splits)
  show ?thesis
  proof (cases "truthy cvo")
    case False
    with g e1 show ?thesis by (simp add: validate_package_versions_def Let_def add_error_def)
  next
    case True
    with tr e1 have v1: "errors v1 = errors v" by simp
    show ?thesis
    proof (cases "path_exists w ''packaging''")
      case False
      with True g v1 show ?thesis
        by (simp add: validate_package_versions_def Let_def add_warning_def)
    next
      case d: True
      from check_package_files_errors[of w "the cvo" package_files "(True, v1)"] True g v1 d
      show ?thesis by (simp add: validate_package_versions_def Let_def)
    qed
  qed
qed

lemma foldl_warnings_errors:
  "errors (foldl (\<lambda>v f. if P f then add_warning (m f) v else v) v fs) = errors v"
  by (induction fs arbitrary: v) (auto simp: add_warning_def)

lemma check_placeholder_hashes_errors: "errors (check_placeholder_hashes w v) = errors v"
  unfolding check_placeholder_hashes_def by (simp add: foldl_warnings_errors)

lemma validate_all_errors:
  "\<exists>es. errors (snd (validate_all w v)) = errors v @ es \<and> (fst (validate_all w v) \<longleftrightarrow> es = [])"
proof -
  from validate_rust_versions_errors[of w v] obtain e1 where
    1: "errors (snd (validate_rust_versions w v)) = errors v @ e1"
       "fst (validate_rust_versions w v) \<longleftrightarrow> e1 = []" by blast
  from validate_package_versions_errors[of w "snd (validate_rust_versions w v)"] obtain e2 where
    2: "errors (snd (validate_package_versions w (snd (validate_rust_versions w v))))
          = errors (snd (validate_rust_versions w v)) @ e2"
       "fst (validate_package_versions w (snd (validate_rust_versions w v))) \<longleftrightarrow> e2 = []" by blast
  from 1 2 show ?thesis
    by (simp add: validate_all_def Let_def check_placeholder_hashes_errors)
qed

lemma validate_all_from_empty:
  "errors v = [] \<Longrightarrow> fst (validate_all w v) \<longleftrightarrow> errors (snd (validate_all w v)) = []"
  using validate_all_errors[of w v] by auto

text \<open>
  Claim C3. The checker exits with status 0 exactly when the validation pass it ran last
  (the one after the fix, when a fix was attempted) recorded no error; the warnings play no
  part. The run ends with an exit status whenever the version pinned in \<^verbatim>\<open>.mise.toml\<close> has
  no backslash.
\<close>

theorem exit_status_zero_iff_no_errors:
  "(checker_main net fix w = Some (w', v', code)
      \<longrightarrow> (code = 0 \<longleftrightarrow> errors v' = []) \<and> (code = 0 \<or> code = 1))
   \<and> (BS \<notin> set (case get_mise_rust_version w of None \<Rightarrow> [] | Some t \<Rightarrow> t)
      \<longrightarrow> checker_main net fix w \<noteq> None)"
proof (rule conjI; rule impI)
  assume m: "checker_main net fix w = Some (w', v', code)"
  let ?r = "validate_all w \<lparr>errors = [], warnings = []\<rparr>"
  show "(code = 0 \<longleftrightarrow> errors v' = []) \<and> (code = 0 \<or> code = 1)"
  proof (cases "fix \<and> \<not> fst ?r")
    case False
    with m have "v' = snd ?r" "code = (if fst ?r then 0 else 1)"
      by (auto simp: checker_main_def Let_def)
    with validate_all_from_empty[of "\<lparr>errors = [], warnings = []\<rparr>" w] show ?thesis by simp
  next
    case True
    with m obtain w2 v2 where "v' = snd (validate_all w2 (v2\<lparr>errors := [], warnings := []\<rparr>))"
      "code = (if fst (validate_all w2 (v2\<lparr>errors := [], warnings := []\<rparr>)) then 0 else 1)"
      by (auto simp: checker_main_def Let_def split: option.splits if_splits)
    with validate_all_from_empty[of "v2\<lparr>errors := [], warnings := []\<rparr>" w2] show ?thesis by simp
  qed
next
  assume b: "BS \<notin> set (case get_mise_rust_version w of None \<Rightarrow> [] | Some t \<Rightarrow> t)"
  have "truthy (get_mise_rust_version w) \<Longrightarrow> fix_rust_versions (the (get_mise_rust_version w)) w \<noteq> None"
    using b by (auto simp: fix_rust_versions_def fix_file_def re_sub_def truthy_def BS_def
                     split: option.splits)
  then show "checker_main net fix w \<noteq> None"
    by (auto simp: checker_main_def Let_def split: option.splits)
qed

text \<open>
  Claim C10. When the first validation pass succeeds, the checker run with \<^verbatim>\<open>--fix\<close>
  leaves the files as they are and runs no subprocess: the final state is the initial one.
\<close>

theorem fix_skipped_when_valid:
  "fst (validate_all w \<lparr>errors = [], warnings = []\<rparr>)
   \<longrightarrow> checker_main net True w = Some (w, snd (validate_all w \<lparr>errors = [], warnings = []\<rparr>), 0)"
  by (simp add: checker_main_def Let_def)

text \<open>
  Claim C4. With a toolchain version in \<^verbatim>\<open>.mise.toml\<close> and in \<^verbatim>\<open>Cargo.toml\<close> and none found
  in the \<^verbatim>\<open>Dockerfile\<close>, the toolchain check appends the one warning for the Dockerfile,
  appends no error but a mismatch between the two versions present, and succeeds exactly
  when these two agree. A missing version in \<^verbatim>\<open>Cargo.toml\<close> or in \<^verbatim>\<open>.mise.toml\<close> is an
  error and makes the validation fail.
\<close>

theorem missing_dockerfile_version_is_a_warning:
  "(truthy (get_cargo_rust_version w) \<and> truthy (get_mise_rust_version w)
      \<and> \<not> truthy (get_dockerfile_rust_version w) \<longrightarrow>
        warnings (snd (validate_rust_versions w v))
          = warnings v @ [''No Rust version found in Dockerfile'']
      \<and> errors (snd (validate_rust_versions w v))
          = errors v @ (if get_cargo_rust_version w \<noteq> get_mise_rust_version w
                         then [''Rust version mismatch: Cargo.toml='' @ the (get_cargo_rust_version w)
                                 @ '', .mise.toml='' @ the (get_mise_rust_version w)]
                         else [])
      \<and> (fst (validate_rust_versions w v)
           \<longleftrightarrow> get_cargo_rust_version w = get_mise_rust_version w))
   \<and> (\<not> truthy (get_cargo_rust_version w) \<longrightarrow>
        ''No rust-version found in Cargo.toml'' \<in> set (errors (snd (validate_rust_versions w v)))
      \<and> \<not> fst (validate_rust_versions w v) \<and> \<not> fst (validate_all w v))
   \<and> (\<not> truthy (get_mise_rust_version w) \<longrightarrow>
        ''No Rust version found in .mise.toml'' \<in> set (errors (snd (validate_rust_versions w v)))
      \<and> \<not> fst (validate_rust_versions w v) \<and> \<not> fst (validate_all w v))"
  by (auto simp: validate_rust_versions_def validate_all_def Let_def add_error_def add_warning_def truthy_def
           split: option.splits)


theorem exit_status_zero_iff_no_errors_witness:
  "checker_main offline True w_ok
     = Some (w_ok, \<lparr>errors = [], warnings = [''No Rust version found in Dockerfile'',
                                              ''No packaging directory found'']\<rparr>, 0)
   \<and> ((0::nat) = 0 \<longleftrightarrow> errors \<lparr>errors = [], warnings = [''No Rust version found in Dockerfile'',
                                              ''No packaging directory found'']\<rparr> = [])
   \<and> checker_main offline True w_ok \<noteq> None"
proof -
  have m: "checker_main offline True w_ok
     = Some (w_ok, \<lparr>errors = [], warnings = [''No Rust version found in Dockerfile'',
                                              ''No packaging directory found'']\<rparr>, 0)"
    by code_simp
  have b: "BS \<notin> set (case get_mise_rust_version w_ok of None \<Rightarrow> [] | Some t \<Rightarrow> t)"
    by code_simp
  from m b exit_status_zero_iff_no_errors[of offline True w_ok w_ok
      "\<lparr>errors = [], warnings = [''No Rust version found in Dockerfile'',
                                 ''No packaging directory found'']\<rparr>" 0]
  show ?thesis by blast
qed

theorem fix_skipped_when_valid_witness:
  "fst (validate_all w_ok \<lparr>errors = [], warnings = []\<rparr>)
   \<and> checker_main offline True w_ok
      = Some (w_ok, snd (validate_all w_ok \<lparr>errors = [], warnings = []\<rparr>), 0)"
proof -
  have v: "fst (validate_all w_ok \<lparr>errors = [], warnings = []\<rparr>)"
    by code_simp
  from v fix_skipped_when_valid[of w_ok offline] show ?thesis by blast
qed

theorem missing_dockerfile_version_is_a_warning_witness:
  "warnings (snd (validate_rust_versions w_ok \<lparr>errors = [], warnings = []\<rparr>))
     = [''No Rust version found in Dockerfile'']
   \<and> fst (validate_rust_versions w_ok \<lparr>errors = [], warnings = []\<rparr>)
   \<and> ''No rust-version found in Cargo.toml''
        \<in> set (errors (snd (validate_rust_versions w_empty \<lparr>errors = [], warnings = []\<rparr>)))
   \<and> ''No Rust version found in .mise.toml''
        \<in> set (errors (snd (validate_rust_versions w_empty \<lparr>errors = [], warnings = []\<rparr>)))
   \<and> \<not> fst (validate_all w_empty \<lparr>errors = [], warnings = []\<rparr>)"
proof -
  have a: "truthy (get_cargo_rust_version w_ok) \<and> truthy (get_mise_rust_version w_ok)
      \<and> \<not> truthy (get_dockerfile_rust_version w_ok)"
    by code_simp
  have e: "get_cargo_rust_version w_ok = get_mise_rust_version w_ok"
    by code_simp
  have b: "\<not> truthy (get_cargo_rust_version w_empty)"
    by code_simp
  have c: "\<not> truthy (get_mise_rust_version w_empty)"
    by code_simp
  from a e missing_dockerfile_version_is_a_warning[of w_ok "\<lparr>errors = [], warnings = []\<rparr>"]
  have 1: "warnings (snd (validate_rust_versions w_ok \<lparr>errors = [], warnings = []\<rparr>))
     = [''No Rust version found in Dockerfile'']
   \<and> fst (validate_rust_versions w_ok \<lparr>errors = [], warnings = []\<rparr>)"
    by simp
  from b c missing_dockerfile_version_is_a_warning[of w_empty "\<lparr>errors = [], warnings = []\<rparr>"]
  have 2: "''No rust-version found in Cargo.toml''
        \<in> set (errors (snd (validate_rust_versions w_empty \<lparr>errors = [], warnings = []\<rparr>)))
   \<and> ''No Rust version found in .mise.toml''
        \<in> set (errors (snd (validate_rust_versions w_empty \<lparr>errors = [], warnings = []\<rparr>)))
   \<and> \<not> fst (validate_all w_empty \<lparr>errors = [], warnings = []\<rparr>)"
    by blast
  from 1 2 show ?thesis by blast
qed

subsection \<open>Regeneration in fix mode\<close>

lemma sublist_py_join: "x \<in> set ls \<Longrightarrow> sublist x (py_join sep ls)"
proof (induction sep ls rule: py_join.induct)
  case (1 sep)
  then show ?case by simp
next
  case (2 sep y)
  then show ?case by simp
next
  case (3 sep y z zs)
  show ?case
  proof (cases "x = y")
    case True
    then show ?thesis by (simp add: sublist_def) (metis append_Nil)
  next
    case False
    with 3 have "sublist x (py_join sep (z # zs))" by simp
    then obtain ps ss where "py_join sep (z # zs) = ps @ x @ ss" by (auto simp: sublist_def)
    then have "py_join sep (y # z # zs) = (y @ sep @ ps) @ x @ ss" by simp
    then show ?thesis unfolding sublist_def by blast
  qed
qed

lemma sublist_in_context: "sublist x y \<Longrightarrow> sublist x (a @ y @ b)"
proof -
  assume "sublist x y"
  then obtain ps ss where "y = ps @ x @ ss" by (auto simp: sublist_def)
  then have "a @ y @ b = (a @ ps) @ x @ (ss @ b)" by simp
  then show ?thesis unfolding sublist_def by blast
qed

lemma sublist_json_obj:
  assumes "kv \<in> set kvs"
  shows "sublist (json_string (fst kv) @ '': '' @ json_dumps_at (Suc l) (snd kv))
                 (json_dumps_at l (JObj kvs))"
proof -
  from assms have ne: "kvs \<noteq> []" by auto
  let ?f = "\<lambda>kv. json_string (fst kv) @ '': '' @ json_dumps_at (Suc l) (snd kv)"
  from assms have "?f kv \<in> set (map ?f kvs)" by simp
  then have "sublist (?f kv) (py_join ('','' @ newline_indent (Suc l)) (map ?f kvs))"
    by (rule sublist_py_join)
  then have "sublist (?f kv) ((''{'' @ newline_indent (Suc l))
       @ py_join ('','' @ newline_indent (Suc l)) (map ?f kvs) @ (newline_indent l @ ''}''))"
    by (rule sublist_in_context)
  with ne show ?thesis by simp
qed

lemma sublist_value: "sublist x y \<Longrightarrow> sublist x (a @ y)"
  using sublist_in_context[of x y a "[]"] by simp

lemma Inr_py_join_sublist:
  "Inr (py_join sep ls) = Inr out \<Longrightarrow> x \<in> set ls \<Longrightarrow> sublist x out"
  using sublist_py_join by auto

lemma pkgbuild_source_placeholder:
  assumes "generate_pkgbuild_source net m False = Inr out"
  shows "sublist (''sha256sums=('' @ SQ @ PLACEHOLDER @ SQ @ '')'') out"
  using assms unfolding generate_pkgbuild_source_def Let_def sha256_or_placeholder_off
  by (elim bind_e_InrE) (erule Inr_py_join_sublist, simp)

lemma pkgbuild_bin_placeholder:
  assumes "generate_pkgbuild_bin net m False = Inr out"
  shows "sublist (''sha256sums_x86_64=('' @ SQ @ PLACEHOLDER @ SQ @ '')'') out"
  using assms unfolding generate_pkgbuild_bin_def Let_def sha256_or_placeholder_off
  by (elim bind_e_InrE) (erule Inr_py_join_sublist, simp)

lemma homebrew_formula_placeholder:
  assumes "generate_homebrew_formula net m False = Inr out"
  shows \<open>sublist (''  sha256 "'' @ PLACEHOLDER @ ''"'') out\<close>
  using assms unfolding generate_homebrew_formula_def Let_def sha256_or_placeholder_off
  by (elim bind_e_InrE) (erule Inr_py_join_sublist, simp)

lemma json_hash_field: \<open>json_string ''hash'' @ '': '' @ json_dumps_at l (JStr PLACEHOLDER) = ''"hash": "PLACEHOLDER_SHA256"''\<close>
  by (simp add: PLACEHOLDER_def json_string_def json_char_def BS_def)


lemma sublist_transitive: "sublist x y \<Longrightarrow> sublist y z \<Longrightarrow> sublist x z"
proof -
  assume "sublist x y" "sublist y z"
  then obtain p1 s1 p2 s2 where "y = p1 @ x @ s1" "z = p2 @ y @ s2" by (auto simp: sublist_def)
  then have "z = (p2 @ p1) @ x @ (s1 @ s2)" by simp
  then show ?thesis unfolding sublist_def by blast
qed

lemma sublist_json_field:
  "(k, j) \<in> set kvs \<Longrightarrow>
     sublist (json_string k @ '': '' @ json_dumps_at (Suc l) j) (json_dumps_at l (JObj kvs))"
  using sublist_json_obj[of "(k, j)" kvs l] by simp

lemma sublist_json_field_value:
  assumes "(k, j) \<in> set kvs"
  shows "sublist (json_dumps_at (Suc l) j) (json_dumps_at l (JObj kvs))"
proof -
  have "sublist (json_dumps_at (Suc l) j) ((json_string k @ '': '') @ json_dumps_at (Suc l) j)"
    by (rule sublist_value) simp
  then have "sublist (json_dumps_at (Suc l) j) (json_string k @ '': '' @ json_dumps_at (Suc l) j)"
    by simp
  from this sublist_json_field[OF assms, of l] show ?thesis
    by (rule sublist_transitive)
qed

lemma scoop_shape:
  \<open>sublist ''"hash": "PLACEHOLDER_SHA256"''
     (json_dumps_at 0 (JObj [a, b, c, d,
        (''architecture'', JObj [(''64bit'', JObj [u, (''hash'', JStr PLACEHOLDER), e])]),
        f, g, h]))\<close>
proof -
  let ?inner = "JObj [u, (''hash'', JStr PLACEHOLDER), e]"
  let ?arch = "JObj [(''64bit'', ?inner)]"
  have m1: "(''hash'', JStr PLACEHOLDER) \<in> set [u, (''hash'', JStr PLACEHOLDER), e]"
    by simp
  have m2: "(''64bit'', ?inner) \<in> set [(''64bit'', ?inner)]"
    by simp
  have m3: "(''architecture'', ?arch) \<in> set [a, b, c, d, (''architecture'', ?arch), f, g, h]"
    by simp
  note 1 = sublist_json_field[OF m1, of "Suc (Suc 0)"]
  note 2 = sublist_json_field_value[OF m2, of "Suc 0"]
  note 3 = sublist_json_field_value[OF m3, of 0]
  from 1 2 have "sublist (json_string ''hash'' @ '': '' @ json_dumps_at (Suc (Suc (Suc 0))) (JStr PLACEHOLDER))
       (json_dumps_at (Suc 0) ?arch)"
    by (rule sublist_transitive)
  from this 3 have "sublist (json_string ''hash'' @ '': '' @ json_dumps_at (Suc (Suc (Suc 0))) (JStr PLACEHOLDER))
       (json_dumps_at 0 (JObj [a, b, c, d, (''architecture'', ?arch), f, g, h]))"
    by (rule sublist_transitive)
  then show ?thesis unfolding json_hash_field .
qed

lemma Inr_scoop_shape:
  \<open>Inr (json_dumps_at 0 (JObj [a, b, c, d,
        (''architecture'', JObj [(''64bit'', JObj [u, (''hash'', JStr PLACEHOLDER), e])]),
        f, g, h])) = Inr out \<Longrightarrow> sublist ''"hash": "PLACEHOLDER_SHA256"'' out\<close>
  using scoop_shape by blast

lemma scoop_manifest_placeholder:
  assumes "generate_scoop_manifest net m False = Inr out"
  shows \<open>sublist ''"hash": "PLACEHOLDER_SHA256"'' out\<close>
  using assms unfolding generate_scoop_manifest_def Let_def sha256_or_placeholder_off json_dumps_def
  by (elim bind_e_InrE) (erule Inr_scoop_shape)

lemma not_isl_bind_eI: "r = Inr x \<Longrightarrow> \<not> isl (f x) \<Longrightarrow> \<not> isl (bind_e r f)"
  by (simp add: bind_e_def)

lemma not_isl_LetI: "\<not> isl (f a) \<Longrightarrow> \<not> isl (Let a f)"
  by simp

lemma not_isl_Inr: "\<not> isl (Inr x)"
  by simp

lemma loader_items:
  "\<exists>a d l k. item (load_cargo_metadata c) ''authors'' = Inr (PList [a])
     \<and> item (load_cargo_metadata c) ''description'' = Inr d
     \<and> item (load_cargo_metadata c) ''license'' = Inr l
     \<and> item (load_cargo_metadata c) ''keywords'' = Inr k"
  by (simp add: load_cargo_metadata_def item_def Let_def)

lemma subscript0_singleton: "subscript0 (PList [a]) = Inr a"
  by (simp add: subscript0_def)

lemma driver_checks_generators_succeed:
  assumes "bind_e (item (load_cargo_metadata c) ''version'') (\<lambda>v_version.
             bind_e (validate_version v_version) (\<lambda>version.
             bind_e (item (load_cargo_metadata c) ''repository'') (\<lambda>v_repository.
             bind_e (validate_url v_repository) (\<lambda>repository.
             bind_e (item (load_cargo_metadata c) ''homepage'') (\<lambda>v_homepage.
             bind_e (validate_url v_homepage) (\<lambda>homepage.
             bind_e (item (load_cargo_metadata c) ''name'') (\<lambda>v_name.
             sanitize_input v_name 50 (Some name_chars)))))))) = Inr nm"
  shows "\<not> isl (generate_pkgbuild_source net (load_cargo_metadata c) h)
       \<and> \<not> isl (generate_pkgbuild_bin net (load_cargo_metadata c) h)
       \<and> \<not> isl (generate_homebrew_formula net (load_cargo_metadata c) h)
       \<and> \<not> isl (generate_chocolatey_nuspec net (load_cargo_metadata c) h)
       \<and> \<not> isl (generate_scoop_manifest net (load_cargo_metadata c) h)
       \<and> \<not> isl (generate_snapcraft_yaml net (load_cargo_metadata c) h)"
proof -
  from assms obtain vv ver vr rep vh hom vn where
    f: "item (load_cargo_metadata c) ''version'' = Inr vv" "validate_version vv = Inr ver"
       "item (load_cargo_metadata c) ''repository'' = Inr vr" "validate_url vr = Inr rep"
       "item (load_cargo_metadata c) ''homepage'' = Inr vh" "validate_url vh = Inr hom"
       "item (load_cargo_metadata c) ''name'' = Inr vn"
       "sanitize_input vn 50 (Some name_chars) = Inr nm"
    by (elim bind_e_InrE) blast
  from loader_items[of c] obtain a d l k where
    g: "item (load_cargo_metadata c) ''authors'' = Inr (PList [a])"
       "item (load_cargo_metadata c) ''description'' = Inr d"
       "item (load_cargo_metadata c) ''license'' = Inr l"
       "item (load_cargo_metadata c) ''keywords'' = Inr k"
    by blast
  note rules = not_isl_bind_eI[OF f(1)] not_isl_bind_eI[OF f(2)] not_isl_bind_eI[OF f(3)]
    not_isl_bind_eI[OF f(4)] not_isl_bind_eI[OF f(5)] not_isl_bind_eI[OF f(6)]
    not_isl_bind_eI[OF f(7)] not_isl_bind_eI[OF f(8)]
    not_isl_bind_eI[OF g(1)] not_isl_bind_eI[OF g(2)] not_isl_bind_eI[OF g(3)]
    not_isl_bind_eI[OF g(4)] not_isl_bind_eI[OF subscript0_singleton]
    not_isl_LetI not_isl_Inr
  have 1: "\<not> isl (generate_pkgbuild_source net (load_cargo_metadata c) h)"
    unfolding generate_pkgbuild_source_def by (intro rules)
  have 2: "\<not> isl (generate_pkgbuild_bin net (load_cargo_metadata c) h)"
    unfolding generate_pkgbuild_bin_def by (intro rules)
  have 3: "\<not> isl (generate_homebrew_formula net (load_cargo_metadata c) h)"
    unfolding generate_homebrew_formula_def by (intro rules)
  have 4: "\<not> isl (generate_chocolatey_nuspec net (load_cargo_metadata c) h)"
    unfolding generate_chocolatey_nuspec_def by (intro rules)
  have 5: "\<not> isl (generate_scoop_manifest net (load_cargo_metadata c) h)"
    unfolding generate_scoop_manifest_def by (intro rules)
  have 6: "\<not> isl (generate_snapcraft_yaml net (load_cargo_metadata c) h)"
    unfolding generate_snapcraft_yaml_def by (intro rules)
  from 1 2 3 4 5 6 show ?thesis by blast
qed


lemma read_file_spawned [simp]: "read_file (w\<lparr>spawned := x\<rparr>) p = read_file w p"
  by (simp add: read_file_def)

lemma file_exists_spawned [simp]: "file_exists (w\<lparr>spawned := x\<rparr>) p = file_exists w p"
  by (simp add: file_exists_def)

lemma spawned_write_file [simp]: "spawned (write_file p c w) = spawned w"
  by (simp add: write_file_def)

lemma spawned_write_packages: "spawned (write_packages net md h gs w) = spawned w"
  by (induction gs arbitrary: w) (auto split: sum.splits)

lemma map_of_write_file: "map_of (files (write_file p c w)) = (map_of (files w))(p \<mapsto> c)"
  by (simp add: write_file_def update_conv')

lemma pkgbuild_source_net_free:
  "generate_pkgbuild_source net1 m False = generate_pkgbuild_source net2 m False"
  unfolding generate_pkgbuild_source_def sha256_or_placeholder_off by (rule refl)

lemma pkgbuild_bin_net_free:
  "generate_pkgbuild_bin net1 m False = generate_pkgbuild_bin net2 m False"
  unfolding generate_pkgbuild_bin_def sha256_or_placeholder_off by (rule refl)

lemma homebrew_formula_net_free:
  "generate_homebrew_formula net1 m False = generate_homebrew_formula net2 m False"
  unfolding generate_homebrew_formula_def sha256_or_placeholder_off by (rule refl)

lemma scoop_manifest_net_free:
  "generate_scoop_manifest net1 m False = generate_scoop_manifest net2 m False"
  unfolding generate_scoop_manifest_def sha256_or_placeholder_off by (rule refl)

text \<open>
  Claim C9. The fix mode runs the generator script with no argument after the path of the
  script, so without \<^verbatim>\<open>--calculate-hashes\<close>. When that run ends with status 0, each of the
  four manifests that have a hash field holds the text its generator renders with hashing
  disabled, in which the hash field is the placeholder, whatever the file held before.
\<close>

theorem fix_regeneration_writes_placeholder_hashes:
  \<open>snd (fix_package_versions net target_version w) \<longrightarrow>
     spawned (fst (fix_package_versions net target_version w))
       = spawned w @ [[sys_executable, ''packaging/generate_packages.py'']]
   \<and> ''--calculate-hashes'' \<notin> set [sys_executable, ''packaging/generate_packages.py'']
   \<and> (\<exists>out. map_of (files (fst (fix_package_versions net target_version w)))
                ''packaging/aur/PKGBUILD'' = Some out
          \<and> generate_pkgbuild_source offline
               (load_cargo_metadata (read_file w ''Cargo.toml'')) False = Inr out
          \<and> sublist (''sha256sums=('' @ SQ @ ''PLACEHOLDER_SHA256'' @ SQ @ '')'') out)
   \<and> (\<exists>out. map_of (files (fst (fix_package_versions net target_version w)))
                ''packaging/aur/PKGBUILD-bin'' = Some out
          \<and> generate_pkgbuild_bin offline
               (load_cargo_metadata (read_file w ''Cargo.toml'')) False = Inr out
          \<and> sublist (''sha256sums_x86_64=('' @ SQ @ ''PLACEHOLDER_SHA256'' @ SQ @ '')'') out)
   \<and> (\<exists>out. map_of (files (fst (fix_package_versions net target_version w)))
                ''packaging/homebrew/lazycelery.rb'' = Some out
          \<and> generate_homebrew_formula offline
               (load_cargo_metadata (read_file w ''Cargo.toml'')) False = Inr out
          \<and> sublist ''  sha256 "PLACEHOLDER_SHA256"'' out)
   \<and> (\<exists>out. map_of (files (fst (fix_package_versions net target_version w)))
                ''packaging/scoop/lazycelery.json'' = Some out
          \<and> generate_scoop_manifest offline
               (load_cargo_metadata (read_file w ''Cargo.toml'')) False = Inr out
          \<and> sublist ''"hash": "PLACEHOLDER_SHA256"'' out)\<close>
proof
  assume s: "snd (fix_package_versions net target_version w)"
  let ?w1 = "w\<lparr>spawned := spawned w @ [[sys_executable, ''packaging/generate_packages.py'']]\<rparr>"
  let ?md = "load_cargo_metadata (read_file w ''Cargo.toml'')"
  let ?w' = "fst (fix_package_versions net target_version w)"
  from s have rc: "snd (generate_packages_main net [''packaging/generate_packages.py''] ?w1) = 0"
    and res: "?w' = fst (generate_packages_main net [''packaging/generate_packages.py''] ?w1)"
    by (auto simp: fix_package_versions_def Let_def split: if_splits)
  from rc obtain nm where
    chain: "bind_e (item ?md ''version'') (\<lambda>v_version.
             bind_e (validate_version v_version) (\<lambda>version.
             bind_e (item ?md ''repository'') (\<lambda>v_repository.
             bind_e (validate_url v_repository) (\<lambda>repository.
             bind_e (item ?md ''homepage'') (\<lambda>v_homepage.
             bind_e (validate_url v_homepage) (\<lambda>homepage.
             bind_e (item ?md ''name'') (\<lambda>v_name.
             sanitize_input v_name 50 (Some name_chars)))))))) = Inr nm"
    and out: "fst (generate_packages_main net [''packaging/generate_packages.py''] ?w1)
                = write_packages net ?md False generators ?w1"
    by (auto simp: generate_packages_main_def Let_def split: if_splits sum.splits)
  from driver_checks_generators_succeed[OF chain, of net False]
  obtain o1 o2 o3 o4 o5 o6 where
    g: "generate_pkgbuild_source net ?md False = Inr o1"
       "generate_pkgbuild_bin net ?md False = Inr o2"
       "generate_homebrew_formula net ?md False = Inr o3"
       "generate_chocolatey_nuspec net ?md False = Inr o4"
       "generate_scoop_manifest net ?md False = Inr o5"
       "generate_snapcraft_yaml net ?md False = Inr o6"
    by (elim conjE not_isl_InrE) blast
  from res out g have w': "?w' =
      write_file ''packaging/snap/snapcraft.yaml'' o6
       (write_file ''packaging/scoop/lazycelery.json'' o5
         (write_file ''packaging/chocolatey/lazycelery.nuspec'' o4
           (write_file ''packaging/homebrew/lazycelery.rb'' o3
             (write_file ''packaging/aur/PKGBUILD-bin'' o2
               (write_file ''packaging/aur/PKGBUILD'' o1 ?w1)))))"
    by (simp add: generators_def)
  have sp: "spawned ?w' = spawned w @ [[sys_executable, ''packaging/generate_packages.py'']]"
    unfolding w' by simp
  have f1: "map_of (files ?w') ''packaging/aur/PKGBUILD'' = Some o1"
    unfolding w' by (simp add: map_of_write_file)
  have f2: "map_of (files ?w') ''packaging/aur/PKGBUILD-bin'' = Some o2"
    unfolding w' by (simp add: map_of_write_file)
  have f3: "map_of (files ?w') ''packaging/homebrew/lazycelery.rb'' = Some o3"
    unfolding w' by (simp add: map_of_write_file)
  have f5: "map_of (files ?w') ''packaging/scoop/lazycelery.json'' = Some o5"
    unfolding w' by (simp add: map_of_write_file)
  have n: "''--calculate-hashes'' \<notin> set [sys_executable, ''packaging/generate_packages.py'']"
    by (simp add: sys_executable_def)
  have p1: "sublist (''sha256sums=('' @ SQ @ ''PLACEHOLDER_SHA256'' @ SQ @ '')'') o1"
    using pkgbuild_source_placeholder[OF g(1)] by (simp add: PLACEHOLDER_def)
  have p2: "sublist (''sha256sums_x86_64=('' @ SQ @ ''PLACEHOLDER_SHA256'' @ SQ @ '')'') o2"
    using pkgbuild_bin_placeholder[OF g(2)] by (simp add: PLACEHOLDER_def)
  have p3: \<open>sublist ''  sha256 "PLACEHOLDER_SHA256"'' o3\<close>
    using homebrew_formula_placeholder[OF g(3)] by (simp add: PLACEHOLDER_def)
  have p5: \<open>sublist ''"hash": "PLACEHOLDER_SHA256"'' o5\<close>
    using scoop_manifest_placeholder[OF g(5)] .
  from g have d: "generate_pkgbuild_source offline ?md False = Inr o1"
      "generate_pkgbuild_bin offline ?md False = Inr o2"
      "generate_homebrew_formula offline ?md False = Inr o3"
      "generate_scoop_manifest offline ?md False = Inr o5"
    using pkgbuild_source_net_free[of offline ?md net] pkgbuild_bin_net_free[of offline ?md net]
      homebrew_formula_net_free[of offline ?md net] scoop_manifest_net_free[of offline ?md net]
    by simp_all
  from sp n f1 f2 f3 f5 p1 p2 p3 p5 d
  show "spawned ?w' = spawned w @ [[sys_executable, ''packaging/generate_packages.py'']]
   \<and> ''--calculate-hashes'' \<notin> set [sys_executable, ''packaging/generate_packages.py'']
   \<and> (\<exists>out. map_of (files ?w') ''packaging/aur/PKGBUILD'' = Some out
          \<and> generate_pkgbuild_source offline ?md False = Inr out
          \<and> sublist (''sha256sums=('' @ SQ @ ''PLACEHOLDER_SHA256'' @ SQ @ '')'') out)
   \<and> (\<exists>out. map_of (files ?w') ''packaging/aur/PKGBUILD-bin'' = Some out
          \<and> generate_pkgbuild_bin offline ?md False = Inr out
          \<and> sublist (''sha256sums_x86_64=('' @ SQ @ ''PLACEHOLDER_SHA256'' @ SQ @ '')'') out)
   \<and> (\<exists>out. map_of (files ?w') ''packaging/homebrew/lazycelery.rb'' = Some out
          \<and> generate_homebrew_formula offline ?md False = Inr out
          \<and> sublist ''  sha256 \"PLACEHOLDER_SHA256\"'' out)
   \<and> (\<exists>out. map_of (files ?w') ''packaging/scoop/lazycelery.json'' = Some out
          \<and> generate_scoop_manifest offline ?md False = Inr out
          \<and> sublist ''\"hash\": \"PLACEHOLDER_SHA256\"'' out)"
    by blast
qed

theorem fix_regeneration_writes_placeholder_hashes_witness:
  \<open>snd (fix_package_versions offline ''1.2.3'' w_fix)
   \<and> spawned (fst (fix_package_versions offline ''1.2.3'' w_fix))
       = spawned w_fix @ [[sys_executable, ''packaging/generate_packages.py'']]
   \<and> (\<exists>out. map_of (files (fst (fix_package_versions offline ''1.2.3'' w_fix)))
                ''packaging/aur/PKGBUILD'' = Some out
          \<and> sublist (''sha256sums=('' @ SQ @ ''PLACEHOLDER_SHA256'' @ SQ @ '')'') out)\<close>
proof -
  have h: "snd (fix_package_versions offline ''1.2.3'' w_fix)"
    by code_simp
  from h fix_regeneration_writes_placeholder_hashes[of offline "''1.2.3''" w_fix]
  show ?thesis by blast
qed

subsection \<open>The fix of the toolchain version\<close>

lemma rmatch_star_ncls_step:
  "c \<noteq> q \<Longrightarrow> rmatch (Star (NCls [q])) (n, c # t, g)
     = rmatch (Star (NCls [q])) (Suc n, t, g) @ [(n, c # t, g)]"
  by simp

lemma rmatch_star_ncls_stop:
  "rmatch (Star (NCls [q])) (n, q # t, g) = [(n, q # t, g)]"
  "rmatch (Star (NCls [q])) (n, [], g) = [(n, [], g)]"
  by simp_all

lemma rmatch_star_ncls_lit:
  "rmatch (Seq (Star (NCls [q])) (Lit [q])) (n, t, g) =
     (case dropWhile (\<lambda>c. c \<noteq> q) t of
        [] \<Rightarrow> []
      | c # r \<Rightarrow> [(n + length (takeWhile (\<lambda>c. c \<noteq> q) t) + 1, r, g)])"
proof (induction t arbitrary: n)
  case Nil
  show ?case by simp
next
  case (Cons c t)
  show ?case
  proof (cases "c = q")
    case True
    have "rmatch (Seq (Star (NCls [q])) (Lit [q])) (n, q # t, g)
        = concat (map (rmatch (Lit [q])) (rmatch (Star (NCls [q])) (n, q # t, g)))"
      by (simp only: rmatch.simps)
    also have "\<dots> = [(n + 1, t, g)]"
      by (simp only: rmatch_star_ncls_stop) simp
    finally show ?thesis using True by (simp del: rmatch.simps)
  next
    case False
    have "rmatch (Seq (Star (NCls [q])) (Lit [q])) (n, c # t, g)
        = concat (map (rmatch (Lit [q])) (rmatch (Star (NCls [q])) (n, c # t, g)))"
      by (simp only: rmatch.simps)
    also have "\<dots> = concat (map (rmatch (Lit [q])) (rmatch (Star (NCls [q])) (Suc n, t, g)))
                      @ rmatch (Lit [q]) (n, c # t, g)"
      by (simp only: rmatch_star_ncls_step[OF False]) simp
    also have "concat (map (rmatch (Lit [q])) (rmatch (Star (NCls [q])) (Suc n, t, g)))
        = rmatch (Seq (Star (NCls [q])) (Lit [q])) (Suc n, t, g)"
      by (simp only: rmatch.simps)
    also have "rmatch (Lit [q]) (n, c # t, g) = []"
      using False by simp
    finally have eq: "rmatch (Seq (Star (NCls [q])) (Lit [q])) (n, c # t, g)
        = rmatch (Seq (Star (NCls [q])) (Lit [q])) (Suc n, t, g) @ []" .
    show ?thesis
      unfolding eq Cons.IH using False
      by (simp del: rmatch.simps cong: list.case_cong)
  qed
qed

lemma rmatch_cargo_fix:
  "rmatch cargo_fix_rx (n, s, g) =
     (if prefix needle s then
        (case dropWhile (\<lambda>c. c \<noteq> CHR 0x22) (drop (length needle) s) of
           [] \<Rightarrow> []
         | c # r \<Rightarrow> [(n + length needle
                         + length (takeWhile (\<lambda>c. c \<noteq> CHR 0x22) (drop (length needle) s)) + 1, r, g)])
      else [])"
proof -
  have 1: "rmatch cargo_fix_rx (n, s, g) =
      concat (map (rmatch (Seq (Star (NCls [CHR 0x22])) (Lit [CHR 0x22])))
                  (rmatch (Lit needle) (n, s, g)))"
    by (simp only: cargo_fix_rx_def needle_def rmatch.simps)
  have 2: "rmatch (Lit needle) (n, s, g)
      = (if prefix needle s then [(n + length needle, drop (length needle) s, g)] else [])"
    by (simp only: rmatch.simps)
  show ?thesis
  proof (cases "prefix needle s")
    case True
    then have "rmatch cargo_fix_rx (n, s, g)
        = rmatch (Seq (Star (NCls [CHR 0x22])) (Lit [CHR 0x22]))
            (n + length needle, drop (length needle) s, g)"
      unfolding 1 2 by (simp del: rmatch.simps)
    also have "\<dots> = (case dropWhile (\<lambda>c. c \<noteq> CHR 0x22) (drop (length needle) s) of
           [] \<Rightarrow> []
         | c # r \<Rightarrow> [(n + length needle
                         + length (takeWhile (\<lambda>c. c \<noteq> CHR 0x22) (drop (length needle) s)) + 1, r, g)])"
      by (rule rmatch_star_ncls_lit)
    finally show ?thesis using True by (simp del: rmatch.simps)
  next
    case False
    then show ?thesis unfolding 1 2 by simp
  qed
qed

lemma re_sub_from_no_match:
  assumes "rmatch p (n, c # cs, None) = []"
  shows "re_sub_from p repl n (c # cs) = c # re_sub_from p repl (Suc n) cs"
  using assms by (subst re_sub_from.simps) simp

lemma re_sub_from_skip:
  assumes "\<forall>i < length x. \<not> prefix needle (drop i (x @ y))"
  shows "re_sub_from cargo_fix_rx repl n (x @ y) = x @ re_sub_from cargo_fix_rx repl (n + length x) y"
  using assms
proof (induction x arbitrary: n)
  case Nil
  show ?case by simp
next
  case (Cons c x)
  from Cons.prems[rule_format, of 0] have 0: "\<not> prefix needle ((c # x) @ y)" by simp
  have r: "\<forall>i < length x. \<not> prefix needle (drop i (x @ y))"
  proof (intro allI impI)
    fix i assume "i < length x"
    then have "Suc i < length (c # x)" by simp
    with Cons.prems have "\<not> prefix needle (drop (Suc i) ((c # x) @ y))" by blast
    then show "\<not> prefix needle (drop i (x @ y))" by simp
  qed
  from 0 have "rmatch cargo_fix_rx (n, c # x @ y, None) = []"
    by (simp only: rmatch_cargo_fix append_Cons if_False)
  then have "re_sub_from cargo_fix_rx repl n (c # x @ y) = c # re_sub_from cargo_fix_rx repl (Suc n) (x @ y)"
    by (rule re_sub_from_no_match)
  with Cons.IH[OF r, of "Suc n"] show ?case by simp
qed

lemma re_sub_from_nil: "re_sub_from cargo_fix_rx repl n [] = []"
  by (subst re_sub_from.simps) (simp add: rmatch_cargo_fix needle_def)

lemma re_sub_from_unchanged:
  assumes "\<not> sublist needle b"
  shows "re_sub_from cargo_fix_rx repl n b = b"
proof -
  have "\<forall>i < length b. \<not> prefix needle (drop i (b @ []))"
  proof (intro allI impI notI)
    fix i assume "prefix needle (drop i (b @ []))"
    then obtain z where "drop i b = needle @ z" by (auto simp: prefix_def)
    then have "b = take i b @ needle @ z" by (metis append_take_drop_id)
    with assms show False unfolding sublist_def by blast
  qed
  from re_sub_from_skip[OF this, of repl n] show ?thesis by (simp add: re_sub_from_nil)
qed

lemma needle_length: "length needle = 16"
  by (simp add: needle_def)

lemma line_decomp: \<open>''rust-version = "1.74.0"'' = needle @ ''1.74.0'' @ [CHR 0x22]\<close>
  by (simp add: needle_def)

lemma re_sub_from_at_line:
  \<open>re_sub_from cargo_fix_rx repl n (''rust-version = "1.74.0"'' @ b)
     = repl @ re_sub_from cargo_fix_rx repl (n + 23) b\<close>
proof -
  have p: "prefix needle (needle @ ''1.74.0'' @ [CHR 0x22] @ b)" by simp
  have d: "drop (length needle) (needle @ ''1.74.0'' @ [CHR 0x22] @ b) = ''1.74.0'' @ [CHR 0x22] @ b"
    by simp
  have m: "rmatch cargo_fix_rx (n, needle @ ''1.74.0'' @ [CHR 0x22] @ b, None) = [(n + 23, b, None)]"
    unfolding rmatch_cargo_fix d using p by (simp add: needle_length)
  have l: "length b < length (needle @ ''1.74.0'' @ [CHR 0x22] @ b)" by simp
  show ?thesis
    unfolding line_decomp append_assoc
    by (subst re_sub_from.simps) (simp only: m list.case fst_conv snd_conv l if_True)
qed

lemma sublist_trans': "sublist x y \<Longrightarrow> sublist y z \<Longrightarrow> sublist x z"
  by (rule sublist_order.order_trans)

lemma needle_word: "needle = ''rust-version'' @ '' = '' @ [CHR 0x22]"
  by (simp add: needle_def)

lemma sublist_needle_word: "sublist needle x \<Longrightarrow> sublist ''rust-version'' x"
proof -
  assume "sublist needle x"
  moreover have "sublist ''rust-version'' needle"
    unfolding needle_word by (rule sublist_append_rightI)
  ultimately show ?thesis by (rule sublist_trans'[rotated])
qed

lemma NL_notin_needle: "NL \<notin> set needle"
  by (simp add: needle_def NL_def)

lemma no_needle_before_line:
  assumes a: "a = [] \<or> last a = NL" and na: "\<not> sublist ''rust-version'' a"
  shows "\<forall>i < length a. \<not> prefix needle (drop i (a @ y))"
proof (intro allI impI notI)
  fix i assume i: "i < length a" and p: "prefix needle (drop i (a @ y))"
  let ?u = "drop i a"
  from i have u: "?u \<noteq> []" by simp
  from i a have l: "last ?u = NL" by auto
  from i p have p': "prefix needle (?u @ y)" by simp
  show False
  proof (cases "length needle \<le> length ?u")
    case True
    from p' consider "prefix needle ?u" | us where "needle = ?u @ us"
      by (auto simp: prefix_append)
    then have "prefix needle ?u"
    proof cases
      case 1
      then show ?thesis .
    next
      case 2
      then have "length needle = length ?u + length us" by (metis length_append)
      with True have "us = []" by simp
      with 2 show ?thesis by simp
    qed
    then have "sublist needle ?u" by (rule prefix_imp_sublist)
    then have "sublist needle a" by (rule sublist_trans') (rule sublist_drop)
    with na sublist_needle_word show False by blast
  next
    case False
    from p' consider "prefix needle ?u" | us where "needle = ?u @ us"
      by (auto simp: prefix_append)
    then have "prefix ?u needle"
    proof cases
      case 1
      with False show ?thesis using prefix_length_le by blast
    next
      case 2
      then show ?thesis by (rule prefixI)
    qed
    then have "set ?u \<subseteq> set needle" by (rule set_mono_prefix)
    moreover from u l have "NL \<in> set ?u" using last_in_set[OF u] by simp
    ultimately show False using NL_notin_needle by blast
  qed
qed

lemma re_sub_cargo_line:
  assumes a: "a = [] \<or> last a = NL"
    and na: "\<not> sublist ''rust-version'' a" and nb: "\<not> sublist ''rust-version'' b"
  shows \<open>re_sub_from cargo_fix_rx repl 0 (a @ ''rust-version = "1.74.0"'' @ b) = a @ repl @ b\<close>
proof -
  from nb have "\<not> sublist needle b" using sublist_needle_word by blast
  then have b: "\<And>n. re_sub_from cargo_fix_rx repl n b = b"
    by (rule re_sub_from_unchanged)
  from re_sub_from_skip[OF no_needle_before_line[OF a na]]
  have \<open>re_sub_from cargo_fix_rx repl 0 (a @ ''rust-version = "1.74.0"'' @ b)
      = a @ re_sub_from cargo_fix_rx repl (0 + length a) (''rust-version = "1.74.0"'' @ b)\<close> .
  then show ?thesis by (simp only: re_sub_from_at_line b)
qed

lemma split_on_append: "split_on c (x @ c # y) = split_on c x @ split_on c y"
proof (induction x)
  case Nil
  show ?case by simp
next
  case (Cons d x)
  show ?case
  proof (cases "d = c")
    case True
    with Cons show ?thesis by simp
  next
    case False
    obtain w ws where w: "split_on c x = w # ws"
      using split_on_nonempty[of c x] by (cases "split_on c x") auto
    with False Cons show ?thesis by simp
  qed
qed

lemma split_on_no_sep: "c \<notin> set s \<Longrightarrow> split_on c s = [s]"
  by (induction s) auto

lemma hd_split_on_prefix: "prefix (hd (split_on c s)) s"
proof (induction s)
  case Nil
  show ?case by simp
next
  case (Cons d s)
  obtain w ws where w: "split_on c s = w # ws"
    using split_on_nonempty[of c s] by (cases "split_on c s") auto
  with Cons show ?case by simp
qed

lemma split_on_sublist: "l \<in> set (split_on c s) \<Longrightarrow> sublist l s"
proof (induction s arbitrary: l)
  case Nil
  then show ?case by simp
next
  case (Cons d s)
  obtain w ws where w: "split_on c s = w # ws"
    using split_on_nonempty[of c s] by (cases "split_on c s") auto
  show ?case
  proof (cases "d = c")
    case True
    with Cons.prems have "l = [] \<or> l \<in> set (split_on c s)" by simp
    then show ?thesis
    proof
      assume "l = []" then show ?thesis by simp
    next
      assume "l \<in> set (split_on c s)"
      then have "sublist l s" by (rule Cons.IH)
      then show ?thesis by (simp add: sublist_Cons_right)
    qed
  next
    case False
    with Cons.prems w have "l = d # w \<or> l \<in> set ws" by simp
    then show ?thesis
    proof
      assume l: "l = d # w"
      from hd_split_on_prefix[of c s] w have "prefix w s" by simp
      with l have "prefix l (d # s)" by simp
      then show ?thesis by (rule prefix_imp_sublist)
    next
      assume "l \<in> set ws"
      with w have "l \<in> set (split_on c s)" by simp
      then have "sublist l s" by (rule Cons.IH)
      then show ?thesis by (simp add: sublist_Cons_right)
    qed
  qed
qed

lemma sublist_strip: "sublist (strip s) s"
proof -
  have "sublist (dropWhile py_isspace (rev (dropWhile py_isspace s))) (rev (dropWhile py_isspace s))"
    by (rule sublist_dropWhile)
  then have "sublist (strip s) (dropWhile py_isspace s)"
    unfolding strip_def by (simp add: sublist_rev_left)
  then show ?thesis by (rule sublist_trans') (rule sublist_dropWhile)
qed

lemma sublist_key: "sublist (strip (fst (split1 c (strip l)))) l"
proof -
  have "sublist (fst (split1 c (strip l))) (strip l)"
    unfolding split1_def by simp
  then have "sublist (fst (split1 c (strip l))) l"
    by (rule sublist_trans') (rule sublist_strip)
  with sublist_strip[of "fst (split1 c (strip l))"] show ?thesis
    by (rule sublist_trans')
qed

lemma vv_toml_step_other_key:
  assumes "\<not> sublist ''rust-version'' l"
  shows "snd (vv_toml_step l st) ''rust-version'' = snd st ''rust-version''"
proof -
  from assms sublist_key[of "CHR ''=''" l]
  have "strip (fst (split1 (CHR ''='') (strip l))) \<noteq> ''rust-version''" by metis
  then show ?thesis by (simp add: vv_toml_step_def Let_def)
qed

lemma foldl_other_keys:
  assumes "\<forall>l \<in> set ls. \<not> sublist ''rust-version'' l"
  shows "snd (foldl (\<lambda>st line. vv_toml_step line st) st ls) ''rust-version'' = snd st ''rust-version''"
  using assms
proof (induction ls arbitrary: st)
  case Nil
  show ?case by simp
next
  case (Cons l ls)
  then show ?case by (simp add: vv_toml_step_other_key)
qed

lemma old_line_facts:
  "strip old_line = old_line" "old_line \<noteq> ''[package]''" "\<not> prefix ''['' old_line"
  "CHR ''='' \<in> set old_line"
  "strip (fst (split1 (CHR ''='') old_line)) = ''rust-version''"
  "strip_chars quote_chars (strip (snd (split1 (CHR ''='') old_line))) = ''1.74.0''"
  "NL \<notin> set old_line"
  by code_simp+

lemma new_line_facts:
  "strip new_line = new_line" "new_line \<noteq> ''[package]''" "\<not> prefix ''['' new_line"
  "CHR ''='' \<in> set new_line"
  "strip (fst (split1 (CHR ''='') new_line)) = ''rust-version''"
  "strip_chars quote_chars (strip (snd (split1 (CHR ''='') new_line))) = ''1.75.0''"
  "NL \<notin> set new_line"
  by code_simp+

lemma vv_toml_step_old_line:
  "vv_toml_step old_line st
     = (fst st, if fst st then (snd st)(''rust-version'' \<mapsto> ''1.74.0'') else snd st)"
  unfolding vv_toml_step_def Let_def old_line_facts
  using old_line_facts(2,3,4) by simp

lemma vv_toml_step_new_line:
  "vv_toml_step new_line st
     = (fst st, if fst st then (snd st)(''rust-version'' \<mapsto> ''1.75.0'') else snd st)"
  unfolding vv_toml_step_def Let_def new_line_facts
  using new_line_facts(2,3,4) by simp

text \<open>The lines of a text in which \<open>x\<close> is a whole line.\<close>

lemma lines_around:
  assumes a: "a = [] \<or> last a = NL" and b: "b = [] \<or> hd b = NL" and x: "NL \<notin> set x"
  shows "\<exists>la lb. split_on NL (a @ x @ b) = la @ [x] @ lb
            \<and> (\<forall>l \<in> set la. sublist l a) \<and> (\<forall>l \<in> set lb. sublist l b)
            \<and> la = (if a = [] then [] else split_on NL (butlast a))
            \<and> lb = (if b = [] then [] else split_on NL (tl b))"
proof -
  have r: "split_on NL (x @ b) = [x] @ (if b = [] then [] else split_on NL (tl b))"
  proof (cases "b = []")
    case True
    with x show ?thesis by (simp add: split_on_no_sep)
  next
    case False
    with b obtain b' where b': "b = NL # b'" by (cases b) auto
    with x show ?thesis by (simp add: split_on_append split_on_no_sep)
  qed
  have l: "split_on NL (a @ x @ b)
      = (if a = [] then [] else split_on NL (butlast a)) @ split_on NL (x @ b)"
  proof (cases "a = []")
    case True
    then show ?thesis by simp
  next
    case False
    with a have "a = butlast a @ [NL]" by (metis append_butlast_last_id)
    then have "a @ x @ b = butlast a @ NL # (x @ b)" by (metis append_Cons append_Nil append_assoc)
    then have "split_on NL (a @ x @ b) = split_on NL (butlast a) @ split_on NL (x @ b)"
      by (simp only: split_on_append)
    with False show ?thesis by simp
  qed
  have sa: "\<forall>l \<in> set (if a = [] then [] else split_on NL (butlast a)). sublist l a"
  proof (intro ballI)
    fix l assume "l \<in> set (if a = [] then [] else split_on NL (butlast a))"
    then have "l \<in> set (split_on NL (butlast a))" by (auto split: if_splits)
    then have "sublist l (butlast a)" by (rule split_on_sublist)
    then show "sublist l a" by (rule sublist_trans') (rule sublist_butlast)
  qed
  have sb: "\<forall>l \<in> set (if b = [] then [] else split_on NL (tl b)). sublist l b"
  proof (intro ballI)
    fix l assume "l \<in> set (if b = [] then [] else split_on NL (tl b))"
    then have "l \<in> set (split_on NL (tl b))" by (auto split: if_splits)
    then have "sublist l (tl b)" by (rule split_on_sublist)
    then show "sublist l b" by (rule sublist_trans') (rule sublist_tl)
  qed
  from l r sa sb show ?thesis by simp
qed

lemma parse_after_fix:
  assumes a: "a = [] \<or> last a = NL" and b: "b = [] \<or> hd b = NL"
    and na: "\<not> sublist ''rust-version'' a" and nb: "\<not> sublist ''rust-version'' b"
    and old: "vv_parse_toml_simple (a @ old_line @ b) ''rust-version'' = Some ''1.74.0''"
  shows "vv_parse_toml_simple (a @ new_line @ b) ''rust-version'' = Some ''1.75.0''"
proof -
  from lines_around[OF a b old_line_facts(7)] lines_around[OF a b new_line_facts(7)]
  obtain la lb where
    lo: "split_on NL (a @ old_line @ b) = la @ [old_line] @ lb"
    and ln: "split_on NL (a @ new_line @ b) = la @ [new_line] @ lb"
    and sa: "\<forall>l \<in> set la. sublist l a" and sb: "\<forall>l \<in> set lb. sublist l b"
    by auto
  from sa na have ka: "\<forall>l \<in> set la. \<not> sublist ''rust-version'' l"
    using sublist_trans' by blast
  from sb nb have kb: "\<forall>l \<in> set lb. \<not> sublist ''rust-version'' l"
    using sublist_trans' by blast
  let ?f = "\<lambda>st line. vv_toml_step line st"
  let ?s = "foldl ?f (False, Map.empty) la"
  have o: "vv_parse_toml_simple (a @ old_line @ b) ''rust-version''
      = (if fst ?s then Some ''1.74.0'' else snd ?s ''rust-version'')"
    unfolding vv_parse_toml_simple_def lo
    by (simp add: foldl_other_keys[OF kb] vv_toml_step_old_line)
  have e: "snd ?s ''rust-version'' = None"
    using foldl_other_keys[OF ka, of "(False, Map.empty)"] by simp
  from o e old have p: "fst ?s" by (simp split: if_splits)
  have "vv_parse_toml_simple (a @ new_line @ b) ''rust-version''
      = (if fst ?s then Some ''1.75.0'' else snd ?s ''rust-version'')"
    unfolding vv_parse_toml_simple_def ln
    by (simp add: foldl_other_keys[OF kb] vv_toml_step_new_line)
  with p show ?thesis by simp
qed

lemma rmatch_star_cls_Nil: "rmatch (Star (Cls cs)) (n, [], g) = [(n, [], g)]"
  by simp

lemma rmatch_star_cls_Cons:
  "rmatch (Star (Cls cs)) (n, c # t, g)
     = (if c \<in> set cs then rmatch (Star (Cls cs)) (Suc n, t, g) else []) @ [(n, c # t, g)]"
  by simp

lemma star_cls_results:
  "m \<in> set (rmatch (Star (Cls cs)) (n, s, g))
     \<Longrightarrow> n \<le> fst m \<and> set (take (fst m - n) s) \<subseteq> set cs"
proof (induction s arbitrary: n)
  case Nil
  then show ?case by (simp only: rmatch_star_cls_Nil) simp
next
  case (Cons c t)
  from Cons.prems have "m = (n, c # t, g) \<or> (c \<in> set cs \<and> m \<in> set (rmatch (Star (Cls cs)) (Suc n, t, g)))"
    by (simp only: rmatch_star_cls_Cons) (auto split: if_splits)
  then show ?case
  proof
    assume "m = (n, c # t, g)"
    then show ?thesis by simp
  next
    assume h: "c \<in> set cs \<and> m \<in> set (rmatch (Star (Cls cs)) (Suc n, t, g))"
    with Cons.IH[of "Suc n"] have i: "Suc n \<le> fst m" "set (take (fst m - Suc n) t) \<subseteq> set cs"
      by auto
    from i(1) have "fst m - n = Suc (fst m - Suc n)" by simp
    with i h show ?thesis by simp
  qed
qed

lemma plus_cls_results:
  assumes "m \<in> set (rmatch (Plus (Cls cs)) (n, s, g))"
  shows "set (take (fst m - n) s) \<subseteq> set cs"
proof (cases s)
  case Nil
  with assms show ?thesis by (simp add: Plus_def)
next
  case (Cons c t)
  have "rmatch (Plus (Cls cs)) (n, c # t, g)
      = concat (map (rmatch (Star (Cls cs))) (rmatch (Cls cs) (n, c # t, g)))"
    by (simp only: Plus_def rmatch.simps)
  also have "\<dots> = (if c \<in> set cs then rmatch (Star (Cls cs)) (Suc n, t, g) else [])"
    by (simp del: rmatch.simps(6))
  finally have "c \<in> set cs \<and> m \<in> set (rmatch (Star (Cls cs)) (Suc n, t, g))"
    using assms Cons by (auto split: if_splits)
  with star_cls_results[of m cs "Suc n" t g]
  have i: "c \<in> set cs" "Suc n \<le> fst m" "set (take (fst m - Suc n) t) \<subseteq> set cs"
    by auto
  from i(2) have "fst m - n = Suc (fst m - Suc n)" by simp
  with i Cons show ?thesis by simp
qed

lemma grp_results:
  assumes "m \<in> set (rmatch (Grp r) (n, s, g))"
  shows "\<exists>m' \<in> set (rmatch r (n, s, g)). snd (snd m) = Some (take (fst m' - n) s)"
  using assms by force

lemma dockerfile_rx_results:
  assumes "m \<in> set (rmatch dockerfile_rx (n, s, g))"
  shows "\<exists>d. snd (snd m) = Some d \<and> set d \<subseteq> set (digits @ ''.'')"
proof -
  let ?cs = "digits @ ''.''"
  let ?f = "''FROM rust:''"
  have "rmatch dockerfile_rx (n, s, g)
      = concat (map (rmatch (Grp (Plus (Cls ?cs)))) (rmatch (Lit ?f) (n, s, g)))"
    by (simp only: dockerfile_rx_def rmatch.simps)
  also have "\<dots> = (if prefix ?f s
        then rmatch (Grp (Plus (Cls ?cs))) (n + length ?f, drop (length ?f) s, g) else [])"
    by (simp del: rmatch.simps(7))
  finally have "m \<in> set (rmatch (Grp (Plus (Cls ?cs))) (n + length ?f, drop (length ?f) s, g))"
    using assms by (auto split: if_splits)
  from grp_results[OF this]
  obtain m' where m': "m' \<in> set (rmatch (Plus (Cls ?cs)) (n + length ?f, drop (length ?f) s, g))"
    and m: "snd (snd m) = Some (take (fst m' - (n + length ?f)) (drop (length ?f) s))"
    by blast
  from plus_cls_results[OF m'] m show ?thesis by blast
qed

lemma re_search_from_dockerfile:
  "re_search_from dockerfile_rx n s = Some g
     \<Longrightarrow> \<exists>d. g = Some d \<and> set d \<subseteq> set (digits @ ''.'')"
proof (induction s arbitrary: n)
  case Nil
  then obtain m ms where "rmatch dockerfile_rx (n, [], None) = m # ms" "g = snd (snd m)"
    by (auto split: list.splits)
  with dockerfile_rx_results[of m n "[]" None] show ?case by auto
next
  case (Cons c s)
  show ?case
  proof (cases "rmatch dockerfile_rx (n, c # s, None)")
    case Nil
    with Cons.prems have "re_search_from dockerfile_rx (Suc n) s = Some g" by simp
    then show ?thesis by (rule Cons.IH)
  next
    case (Cons m ms)
    with Cons.prems have "g = snd (snd m)" by simp
    with dockerfile_rx_results[of m n "c # s" None] Cons show ?thesis by auto
  qed
qed

lemma dockerfile_version_chars:
  assumes "get_dockerfile_rust_version w = Some d"
  shows "set d \<subseteq> set (digits @ ''.'')"
proof -
  from assms obtain g where "re_search_from dockerfile_rx 0 (read_file w ''Dockerfile'') = Some g"
    and "g = Some d"
    by (auto simp: get_dockerfile_rust_version_def re_search_def split: if_splits option.splits)
  with re_search_from_dockerfile[of 0 "read_file w ''Dockerfile''" g] show ?thesis by auto
qed

lemma write_packages_other_files:
  assumes "\<not> prefix ''packaging/'' q"
  shows "map_of (files (write_packages net md h gs w)) q = map_of (files w) q"
proof (induction gs arbitrary: w)
  case Nil
  show ?case by simp
next
  case (Cons g gs)
  from assms have "q \<noteq> ''packaging/'' @ fst g" by (metis prefixI)
  then have "map_of (files (write_file (''packaging/'' @ fst g) c w)) q = map_of (files w) q" for c
    by (simp add: map_of_write_file)
  with Cons show ?case by (simp split: sum.splits)
qed

lemma generate_packages_main_other_files:
  assumes "\<not> prefix ''packaging/'' q"
  shows "map_of (files (fst (generate_packages_main net argv w))) q = map_of (files w) q"
  by (simp add: generate_packages_main_def Let_def write_packages_other_files[OF assms]
           split: sum.splits)

lemma fix_package_versions_other_files:
  assumes "\<not> prefix ''packaging/'' q"
  shows "map_of (files (fst (fix_package_versions net tv w))) q = map_of (files w) q"
  by (simp add: fix_package_versions_def Let_def generate_packages_main_other_files[OF assms])

lemma fix_file_other:
  assumes "fix_file p rx repl w = Some r" and "q \<noteq> p"
  shows "map_of (files (fst r)) q = map_of (files w) q"
  using assms by (auto simp: fix_file_def map_of_write_file split: if_splits option.splits)

lemma fix_file_same:
  assumes "map_of (files w) p = Some c" and "re_sub rx repl c = Some c'"
  shows "\<exists>r. fix_file p rx repl w = Some r \<and> map_of (files (fst r)) p = Some c'"
  using assms by (auto simp: fix_file_def file_exists_def read_file_def map_of_write_file)

lemma fix_file_total:
  assumes "BS \<notin> set repl"
  shows "\<exists>r. fix_file p rx repl w = Some r"
  using assms by (auto simp: fix_file_def re_sub_def)

lemma get_cargo_rust_version_content:
  "map_of (files w) ''Cargo.toml'' = Some c
     \<Longrightarrow> get_cargo_rust_version w = vv_parse_toml_simple c ''rust-version''"
  by (simp add: get_cargo_rust_version_def file_exists_def read_file_def)

lemma get_mise_rust_version_cong:
  "map_of (files w') ''.mise.toml'' = map_of (files w) ''.mise.toml''
     \<Longrightarrow> get_mise_rust_version w' = get_mise_rust_version w"
  by (simp add: get_mise_rust_version_def file_exists_def read_file_def)

lemma rust_mismatch_fails:
  assumes "get_cargo_rust_version w = Some c" and "get_mise_rust_version w = Some m"
    and "c \<noteq> []" and "m \<noteq> []" and "c \<noteq> m"
  shows "\<not> fst (validate_rust_versions w v)"
  using assms by (simp add: validate_rust_versions_def Let_def truthy_def)

lemma rust_errors_when_equal:
  assumes "get_cargo_rust_version w = Some t" and "get_mise_rust_version w = Some t"
    and "t \<noteq> []" and "e \<in> set (errors (snd (validate_rust_versions w v)))"
  shows "e \<in> set (errors v)
       \<or> (\<exists>d. get_dockerfile_rust_version w = Some d
              \<and> (e = ''Rust version mismatch: Cargo.toml='' @ t @ '', Dockerfile='' @ d
                 \<or> e = ''Rust version mismatch: .mise.toml='' @ t @ '', Dockerfile='' @ d))"
  using assms
  by (auto simp: validate_rust_versions_def Let_def truthy_def add_error_def add_warning_def
           split: if_splits option.splits)

lemma check_package_files_no_R:
  assumes "\<forall>e \<in> set (errors (snd st)). P e \<or> \<not> prefix ''R'' e"
  shows "\<forall>e \<in> set (errors (snd (check_package_files w cv fs st))). P e \<or> \<not> prefix ''R'' e"
  using assms
proof (induction fs arbitrary: st)
  case Nil
  then show ?case by simp
next
  case (Cons f fs)
  have 1: "\<forall>e \<in> set (errors (snd (fst st, add_warning m (snd st)))). P e \<or> \<not> prefix ''R'' e" for m
    using Cons.prems by (simp add: add_warning_def)
  have 2: "\<forall>e \<in> set (errors (snd (False, add_error (''Version mismatch in '' @ m) (snd st)))).
             P e \<or> \<not> prefix ''R'' e" for m
    using Cons.prems by (auto simp: add_error_def)
  show ?case
    using Cons.IH[OF 1] Cons.IH[OF 2] Cons.IH[OF Cons.prems]
    by (simp split: option.splits)
qed

lemma package_errors_no_R:
  assumes "e \<in> set (errors (snd (validate_package_versions w v)))"
  shows "e \<in> set (errors v) \<or> \<not> prefix ''R'' e"
proof -
  let ?P = "\<lambda>e. e \<in> set (errors v)"
  have g: "\<forall>e \<in> set (errors (snd (get_cargo_version w v))). ?P e \<or> \<not> prefix ''R'' e"
    by (auto simp: get_cargo_version_def add_error_def)
  then have g': "\<forall>e \<in> set (errors (snd (True, snd (get_cargo_version w v)))). ?P e \<or> \<not> prefix ''R'' e"
    by simp
  from assms g check_package_files_no_R[of "(True, snd (get_cargo_version w v))" ?P, OF g']
  show ?thesis
    by (auto simp: validate_package_versions_def Let_def add_error_def add_warning_def
             split: if_splits)
qed

lemma validate_all_errors_cases:
  assumes "e \<in> set (errors (snd (validate_all w v)))"
  shows "e \<in> set (errors (snd (validate_rust_versions w v))) \<or> \<not> prefix ''R'' e"
proof -
  have "errors (snd (validate_all w v))
      = errors (snd (validate_package_versions w (snd (validate_rust_versions w v))))"
    by (simp add: validate_all_def Let_def check_placeholder_hashes_def foldl_warnings_errors)
  with assms package_errors_no_R show ?thesis by auto
qed

lemma cargo_docker_message_differs:
  assumes "set d \<subseteq> set (digits @ ''.'')"
  shows "''Rust version mismatch: Cargo.toml='' @ ''1.75.0'' @ '', Dockerfile='' @ d
          \<noteq> ''Rust version mismatch: Cargo.toml='' @ x @ '', .mise.toml='' @ y"
proof
  assume "''Rust version mismatch: Cargo.toml='' @ ''1.75.0'' @ '', Dockerfile='' @ d
          = ''Rust version mismatch: Cargo.toml='' @ x @ '', .mise.toml='' @ y"
  then have "''1.75.0, Dockerfile='' @ d = x @ '', .mise.toml='' @ y" by simp
  then have "set (''1.75.0, Dockerfile='' @ d) = set (x @ '', .mise.toml='' @ y)" by simp
  then have "CHR ''m'' \<in> set (''1.75.0, Dockerfile='' @ d)" by simp
  then have "CHR ''m'' \<in> set d" by simp
  with assms show False by (auto simp: digits_def)
qed

lemma mise_docker_message_differs:
  "''Rust version mismatch: .mise.toml='' @ t @ '', Dockerfile='' @ d
     \<noteq> ''Rust version mismatch: Cargo.toml='' @ x @ '', .mise.toml='' @ y"
  by simp

lemma no_R_message_differs:
  "\<not> prefix ''R'' e \<Longrightarrow> e \<noteq> ''Rust version mismatch: Cargo.toml='' @ x @ '', .mise.toml='' @ y"
  by auto

lemma replacement_is_new_line:
  "''rust-version = '' @ [CHR 0x22] @ ''1.75.0'' @ [CHR 0x22] = new_line"
  by (simp add: new_line_def)

text \<open>
  The fix on the spelling that its pattern knows. When \<^verbatim>\<open>.mise.toml\<close> gives \<^verbatim>\<open>1.75.0\<close>,
  \<^verbatim>\<open>Cargo.toml\<close> gives \<^verbatim>\<open>1.74.0\<close> by a line that reads exactly \<^verbatim>\<open>rust-version = "1.74.0"\<close>, and the text \<^verbatim>\<open>rust-version\<close> occurs
  nowhere else in \<^verbatim>\<open>Cargo.toml\<close>, then the checker run with \<^verbatim>\<open>--fix\<close> ends, that line reads
  \<^verbatim>\<open>rust-version = "1.75.0"\<close> afterwards, the checker reads \<^verbatim>\<open>1.75.0\<close> from both files, and
  the validation pass after the fix records no mismatch between \<^verbatim>\<open>Cargo.toml\<close> and
  \<^verbatim>\<open>.mise.toml\<close>.
\<close>

lemma fix_rewrites_spaced_declaration:
  assumes mise: "get_mise_rust_version w = Some ''1.75.0''"
    and cargo: "get_cargo_rust_version w = Some ''1.74.0''"
    and layout: \<open>map_of (files w) ''Cargo.toml'' = Some (a @ ''rust-version = "1.74.0"'' @ b)\<close>
    and a: "a = [] \<or> last a = NL" and b: "b = [] \<or> hd b = NL"
    and na: "\<not> sublist ''rust-version'' a" and nb: "\<not> sublist ''rust-version'' b"
  shows \<open>\<exists>w' v' code. checker_main net True w = Some (w', v', code)
     \<and> map_of (files w') ''Cargo.toml'' = Some (a @ ''rust-version = "1.75.0"'' @ b)
     \<and> get_cargo_rust_version w' = Some ''1.75.0''
     \<and> get_mise_rust_version w' = Some ''1.75.0''
     \<and> (\<forall>x y. ''Rust version mismatch: Cargo.toml='' @ x @ '', .mise.toml='' @ y
                 \<notin> set (errors v'))\<close>
proof -
  let ?C = "a @ old_line @ b" and ?C' = "a @ new_line @ b"
  from layout have lay: "map_of (files w) ''Cargo.toml'' = Some ?C"
    by (simp add: old_line_def)
  from cargo get_cargo_rust_version_content[OF lay]
  have old: "vv_parse_toml_simple ?C ''rust-version'' = Some ''1.74.0''" by simp
  have new: "vv_parse_toml_simple ?C' ''rust-version'' = Some ''1.75.0''"
    by (rule parse_after_fix[OF a b na nb old])
  let ?v0 = "\<lparr>errors = [], warnings = []\<rparr>"
  have "\<not> fst (validate_rust_versions w ?v0)"
    by (rule rust_mismatch_fails[OF cargo mise]) simp_all
  then have invalid: "\<not> fst (validate_all w ?v0)"
    by (simp add: validate_all_def Let_def)
  have sub: "re_sub cargo_fix_rx new_line ?C = Some ?C'"
    using re_sub_cargo_line[OF a na nb, of new_line]
    by (simp add: re_sub_def old_line_def new_line_def BS_def)
  from fix_file_same[OF lay sub] obtain r1 where
    r1: "fix_file ''Cargo.toml'' cargo_fix_rx new_line w = Some r1"
    and c1: "map_of (files (fst r1)) ''Cargo.toml'' = Some ?C'"
    by blast
  have "BS \<notin> set (''FROM rust:'' @ ''1.75.0'')" by (simp add: BS_def)
  from fix_file_total[OF this] obtain r2 where
    r2: "fix_file ''Dockerfile'' dockerfile_fix_rx (''FROM rust:'' @ ''1.75.0'') (fst r1) = Some r2"
    by blast
  have fx: "fix_rust_versions ''1.75.0'' w = Some (fst r2, snd r1 \<or> snd r2)"
    unfolding fix_rust_versions_def replacement_is_new_line using r1 r2 by simp
  from fix_file_other[OF r2, of "''Cargo.toml''"] c1
  have c2: "map_of (files (fst r2)) ''Cargo.toml'' = Some ?C'" by simp
  from fix_file_other[OF r2, of "''.mise.toml''"] fix_file_other[OF r1, of "''.mise.toml''"]
  have m2: "map_of (files (fst r2)) ''.mise.toml'' = map_of (files w) ''.mise.toml''" by simp
  let ?cv = "fst (get_cargo_version w (snd (validate_all w ?v0)))"
  let ?v2 = "snd (get_cargo_version w (snd (validate_all w ?v0)))"
  let ?w2 = "if truthy ?cv then fst (fix_package_versions net (the ?cv) (fst r2)) else fst r2"
  let ?r' = "validate_all ?w2 (?v2\<lparr>errors := [], warnings := []\<rparr>)"
  have c3: "map_of (files ?w2) ''Cargo.toml'' = Some ?C'"
    using c2 fix_package_versions_other_files[of "''Cargo.toml''" net "the ?cv" "fst r2"] by simp
  have m3: "map_of (files ?w2) ''.mise.toml'' = map_of (files w) ''.mise.toml''"
    using m2 fix_package_versions_other_files[of "''.mise.toml''" net "the ?cv" "fst r2"] by simp
  from get_cargo_rust_version_content[OF c3] new
  have cargo': "get_cargo_rust_version ?w2 = Some ''1.75.0''" by simp
  from get_mise_rust_version_cong[OF m3] mise
  have mise': "get_mise_rust_version ?w2 = Some ''1.75.0''" by simp
  from invalid mise fx
  have main: "checker_main net True w = Some (?w2, snd ?r', if fst ?r' then 0 else 1)"
    by (simp add: checker_main_def Let_def truthy_def)
  have errs: "\<forall>x y. ''Rust version mismatch: Cargo.toml='' @ x @ '', .mise.toml='' @ y
                 \<notin> set (errors (snd ?r'))"
  proof (intro allI notI)
    fix x y
    let ?e = "''Rust version mismatch: Cargo.toml='' @ x @ '', .mise.toml='' @ y"
    assume "?e \<in> set (errors (snd ?r'))"
    from validate_all_errors_cases[OF this] no_R_message_differs[of ?e x y]
    have "?e \<in> set (errors (snd (validate_rust_versions ?w2 (?v2\<lparr>errors := [], warnings := []\<rparr>))))"
      by blast
    from rust_errors_when_equal[OF cargo' mise' _ this]
    obtain d where d: "get_dockerfile_rust_version ?w2 = Some d"
      and e: "?e = ''Rust version mismatch: Cargo.toml='' @ ''1.75.0'' @ '', Dockerfile='' @ d
            \<or> ?e = ''Rust version mismatch: .mise.toml='' @ ''1.75.0'' @ '', Dockerfile='' @ d"
      by auto
    from e cargo_docker_message_differs[OF dockerfile_version_chars[OF d], of x y]
      mise_docker_message_differs[of "''1.75.0''" d x y]
    show False by metis
  qed
  from main c3 cargo' mise' errs show ?thesis
    by (simp add: new_line_def)
qed

lemma fix_rewrites_spaced_declaration_example:
  \<open>get_mise_rust_version w_drift = Some ''1.75.0''
   \<and> get_cargo_rust_version w_drift = Some ''1.74.0''
   \<and> (\<exists>w' v' code. checker_main offline True w_drift = Some (w', v', code)
     \<and> map_of (files w') ''Cargo.toml''
         = Some (''[package]\<newline>version = "1.2.3"\<newline>'' @ ''rust-version = "1.75.0"'' @ ''\<newline>'')
     \<and> get_cargo_rust_version w' = Some ''1.75.0''
     \<and> get_mise_rust_version w' = Some ''1.75.0''
     \<and> (\<forall>x y. ''Rust version mismatch: Cargo.toml='' @ x @ '', .mise.toml='' @ y
                 \<notin> set (errors v')))\<close>
proof -
  have mise: "get_mise_rust_version w_drift = Some ''1.75.0''"
    by code_simp
  have cargo: "get_cargo_rust_version w_drift = Some ''1.74.0''"
    by code_simp
  have layout: \<open>map_of (files w_drift) ''Cargo.toml''
      = Some (''[package]\<newline>version = "1.2.3"\<newline>'' @ ''rust-version = "1.74.0"'' @ ''\<newline>'')\<close>
    by (simp add: w_drift_def)
  have a: \<open>''[package]\<newline>version = "1.2.3"\<newline>'' = [] \<or> last ''[package]\<newline>version = "1.2.3"\<newline>'' = NL\<close>
    by (simp add: NL_def)
  have b: \<open>''\<newline>'' = [] \<or> hd ''\<newline>'' = NL\<close>
    by (simp add: NL_def)
  have na: \<open>\<not> sublist ''rust-version'' ''[package]\<newline>version = "1.2.3"\<newline>''\<close>
    by code_simp
  have nb: \<open>\<not> sublist ''rust-version'' ''\<newline>''\<close>
    by code_simp
  from mise cargo fix_rewrites_spaced_declaration[OF mise cargo layout a b na nb, of offline]
  show ?thesis by blast
qed

text \<open>
  Claim C5, at a project whose \<^verbatim>\<open>.mise.toml\<close> pins the toolchain \<^verbatim>\<open>1.75.0\<close> and whose
  \<^verbatim>\<open>Cargo.toml\<close> declares \<^verbatim>\<open>1.74.0\<close> by the line \<^verbatim>\<open>rust-version="1.74.0"\<close>, without spaces
  around the equals sign. The checker reads \<^verbatim>\<open>1.74.0\<close> from it, so the first validation
  fails; run with \<^verbatim>\<open>--fix\<close> it leaves every file as it is, the validation pass after the fix
  records the mismatch between \<^verbatim>\<open>Cargo.toml\<close> and \<^verbatim>\<open>.mise.toml\<close> again, and the exit status
  is 1. The pattern of the fix matches only the spelling with one space on each side of the
  equals sign, while the reader accepts the declaration in either spelling.
\<close>

theorem fix_leaves_unspaced_declaration:
  "get_mise_rust_version w_unspaced = Some ''1.75.0''
   \<and> get_cargo_rust_version w_unspaced = Some ''1.74.0''
   \<and> checker_main offline True w_unspaced
       = Some (w_unspaced,
               \<lparr>errors = [''Rust version mismatch: Cargo.toml=1.74.0, .mise.toml=1.75.0''],
                warnings = [''No Rust version found in Dockerfile'',
                            ''No packaging directory found'']\<rparr>,
               1)"
  by code_simp

end
